theory Spec2Isabelle
  imports Complex_Main "HOL-Library.Monad_Syntax"
begin

section \<open>Decoded JSON and the library boundary\<close>

text \<open>
  A value of Go's \<open>interface{}\<close> after \<open>json.Unmarshal\<close>: \<open>nil\<close>, \<open>bool\<close>,
  \<open>float64\<close>, \<open>string\<close>, \<open>[]interface{}\<close> or \<open>map[string]interface{}\<close>. An object keeps
  its members in the order of the text, so that a repeated key can be resolved the way the
  decoder does (the last one wins). A \<open>float64\<close> is modelled by a real number: the
  rounding of the binary format is not part of the model.
\<close>

datatype json =
    JNull
  | JBool bool
  | JNum real
  | JStr string
  | JArr "json list"
  | JObj "(string \<times> json) list"

text \<open>
  What the parser takes from the Go runtime and its standard library, and not from the
  repository: the JSON text decoder, \<open>strconv.ParseFloat\<close>, the offset of the local
  time zone at an instant (seconds east of UTC), and the result of converting to \<open>int\<close> a
  \<open>float64\<close> that does not fit in 64 bits (the language leaves it to the implementation).
\<close>

record golib =
  json_Unmarshal :: "string \<Rightarrow> json option"
  strconv_ParseFloat :: "string \<Rightarrow> real option"
  zone_offset :: "int \<Rightarrow> int"
  conv_overflow :: "real \<Rightarrow> int"

definition isSpace :: "char \<Rightarrow> bool" where
  "isSpace c = (c = CHR 0x09 \<or> c = CHR 0x0A \<or> c = CHR 0x0B \<or> c = CHR 0x0C \<or> c = CHR 0x0D
     \<or> c = CHR '' '')"

text \<open>\<open>strings.TrimSpace\<close>, on the ASCII white space.\<close>

definition TrimSpace :: "string \<Rightarrow> string" where
  "TrimSpace s = rev (dropWhile isSpace (rev (dropWhile isSpace s)))"

text \<open>
  The decoder matches an object key with a struct field by its JSON name, case not
  counting (here: ASCII case). No two fields of the structs below have names that differ
  in case only, so the preference for an exact match never decides.
\<close>

definition lower :: "char \<Rightarrow> char" where
  "lower c = (let n = (of_char c :: int) in if 65 \<le> n \<and> n \<le> 90 then char_of (n + 32) else c)"

definition values_of :: "(string \<times> json) list \<Rightarrow> string \<Rightarrow> json list" where
  "values_of kvs name = map snd (filter (\<lambda>kv. map lower (fst kv) = map lower name) kvs)"

text \<open>A field of type \<open>interface{}\<close>: the last value given, \<open>nil\<close> when there is none.\<close>

definition iface_field :: "json list \<Rightarrow> json" where
  "iface_field vs = (if vs = [] then JNull else last vs)"

text \<open>A field of type \<open>json.RawMessage\<close>: \<open>None\<close> is the empty slice.\<close>

definition raw_field :: "json list \<Rightarrow> json option" where
  "raw_field vs = (if vs = [] then None else Some (last vs))"

text \<open>
  A field of type \<open>string\<close>: a string is stored, \<open>null\<close> leaves the field as it is, any
  other value is a type error of \<open>Unmarshal\<close> (\<open>None\<close>).
\<close>

fun string_field :: "json list \<Rightarrow> string \<Rightarrow> string option" where
  "string_field [] cur = Some cur"
| "string_field (JStr s # vs) cur = string_field vs s"
| "string_field (JNull # vs) cur = string_field vs cur"
| "string_field (v # vs) cur = None"

text \<open>A field of type \<open>*float64\<close>: a number is stored, \<open>null\<close> resets the pointer.\<close>

fun float_ptr_field :: "json list \<Rightarrow> real option \<Rightarrow> real option option" where
  "float_ptr_field [] cur = Some cur"
| "float_ptr_field (JNum x # vs) cur = float_ptr_field vs (Some x)"
| "float_ptr_field (JNull # vs) cur = float_ptr_field vs None"
| "float_ptr_field (v # vs) cur = None"

section \<open>The raw structs of the parser\<close>

record rawRecord =
  rr_Type :: json
  rr_Timestamp :: json
  rr_Message :: "json option"
  rr_Usage :: "json option"
  rr_CostUsd :: "real option"
  rr_Model :: string
  rr_ModelID :: string
  rr_ModelID2 :: string

record rawMessage =
  rm_Usage :: "json option"
  rm_Model :: string
  rm_ModelID :: string
  rm_ModelID2 :: string

record rawUsage =
  TotalTokens :: json
  TotalTokens2 :: json
  Total :: json
  Tokens :: json
  Input :: json
  Output :: json
  CacheRead :: json
  CacheWrite :: json
  InputTokens :: json
  OutputTokens :: json
  CacheReadInputTokens :: json
  CacheCreationInputTokens :: json
  ReasoningTokens :: json
  Cost :: json

record UsageRecord =
  AgentName :: string
  Model :: string
  DateKey :: string
  Tokens_of :: int
  Cost_of :: real
  Hour :: "int option"
  DOW :: "int option"

text \<open>
  \<open>json.Unmarshal\<close> of a decoded value into each struct: an object fills the fields,
  \<open>null\<close> leaves the zero struct, anything else is an error.
\<close>

definition decode_rawRecord :: "json \<Rightarrow> rawRecord option" where
  "decode_rawRecord j =
    (case j of
       JObj kvs \<Rightarrow>
         (case (float_ptr_field (values_of kvs ''costUsd'') None,
                string_field (values_of kvs ''model'') [],
                string_field (values_of kvs ''modelId'') [],
                string_field (values_of kvs ''model_id'') []) of
            (Some c, Some m1, Some m2, Some m3) \<Rightarrow>
              Some \<lparr> rr_Type = iface_field (values_of kvs ''type''),
                     rr_Timestamp = iface_field (values_of kvs ''timestamp''),
                     rr_Message = raw_field (values_of kvs ''message''),
                     rr_Usage = raw_field (values_of kvs ''usage''),
                     rr_CostUsd = c, rr_Model = m1, rr_ModelID = m2, rr_ModelID2 = m3 \<rparr>
          | _ \<Rightarrow> None)
     | JNull \<Rightarrow>
         Some \<lparr> rr_Type = JNull, rr_Timestamp = JNull, rr_Message = None, rr_Usage = None,
                rr_CostUsd = None, rr_Model = [], rr_ModelID = [], rr_ModelID2 = [] \<rparr>
     | _ \<Rightarrow> None)"

definition decode_rawMessage :: "json \<Rightarrow> rawMessage option" where
  "decode_rawMessage j =
    (case j of
       JObj kvs \<Rightarrow>
         (case (string_field (values_of kvs ''model'') [],
                string_field (values_of kvs ''modelId'') [],
                string_field (values_of kvs ''model_id'') []) of
            (Some m1, Some m2, Some m3) \<Rightarrow>
              Some \<lparr> rm_Usage = raw_field (values_of kvs ''usage''),
                     rm_Model = m1, rm_ModelID = m2, rm_ModelID2 = m3 \<rparr>
          | _ \<Rightarrow> None)
     | JNull \<Rightarrow> Some \<lparr> rm_Usage = None, rm_Model = [], rm_ModelID = [], rm_ModelID2 = [] \<rparr>
     | _ \<Rightarrow> None)"

definition zero_rawUsage :: rawUsage where
  "zero_rawUsage =
     \<lparr> TotalTokens = JNull, TotalTokens2 = JNull, Total = JNull, Tokens = JNull,
       Input = JNull, Output = JNull, CacheRead = JNull, CacheWrite = JNull,
       InputTokens = JNull, OutputTokens = JNull, CacheReadInputTokens = JNull,
       CacheCreationInputTokens = JNull, ReasoningTokens = JNull, Cost = JNull \<rparr>"

definition decode_rawUsage :: "json \<Rightarrow> rawUsage option" where
  "decode_rawUsage j =
    (case j of
       JObj kvs \<Rightarrow>
         Some \<lparr> TotalTokens = iface_field (values_of kvs ''totalTokens''),
                TotalTokens2 = iface_field (values_of kvs ''total_tokens''),
                Total = iface_field (values_of kvs ''total''),
                Tokens = iface_field (values_of kvs ''tokens''),
                Input = iface_field (values_of kvs ''input''),
                Output = iface_field (values_of kvs ''output''),
                CacheRead = iface_field (values_of kvs ''cacheRead''),
                CacheWrite = iface_field (values_of kvs ''cacheWrite''),
                InputTokens = iface_field (values_of kvs ''input_tokens''),
                OutputTokens = iface_field (values_of kvs ''output_tokens''),
                CacheReadInputTokens = iface_field (values_of kvs ''cache_read_input_tokens''),
                CacheCreationInputTokens =
                  iface_field (values_of kvs ''cache_creation_input_tokens''),
                ReasoningTokens = iface_field (values_of kvs ''reasoning_tokens''),
                Cost = iface_field (values_of kvs ''cost'') \<rparr>
     | JNull \<Rightarrow> Some zero_rawUsage
     | _ \<Rightarrow> None)"

section \<open>Token totals\<close>

text \<open>
  Go's conversion \<open>int(f)\<close> of a \<open>float64\<close>: the fraction is discarded (truncation
  towards zero); a value outside the 64-bit range gives what the implementation gives.
\<close>

definition trunc :: "real \<Rightarrow> int" where
  "trunc f = (if 0 \<le> f then \<lfloor>f\<rfloor> else \<lceil>f\<rceil>)"

definition int_of_float :: "golib \<Rightarrow> real \<Rightarrow> int" where
  "int_of_float L f =
     (if - 9223372036854775808 \<le> trunc f \<and> trunc f < 9223372036854775808 then trunc f
      else conv_overflow L f)"

definition toInt :: "golib \<Rightarrow> json \<Rightarrow> int" where
  "toInt L v =
    (case v of
       JNull \<Rightarrow> 0
     | JNum val \<Rightarrow> int_of_float L val
     | JStr val \<Rightarrow>
         (let s = TrimSpace val in
          if s = [] then 0
          else (case strconv_ParseFloat L s of None \<Rightarrow> 0 | Some f \<Rightarrow> int_of_float L f))
     | JBool val \<Rightarrow> (if val then 1 else 0)
     | _ \<Rightarrow> 0)"

text \<open>Addition of two Go \<open>int\<close> values (64 bits, two's complement, wrapping).\<close>

definition wrap64 :: "int \<Rightarrow> int" where
  "wrap64 x = (x + 9223372036854775808) mod 18446744073709551616 - 9223372036854775808"

text \<open>The first loop of \<open>extractTotalTokens\<close>: the first explicit total that is positive.\<close>

fun first_positive :: "golib \<Rightarrow> json list \<Rightarrow> int option" where
  "first_positive L [] = None"
| "first_positive L (v # vs) = (if toInt L v > 0 then Some (toInt L v) else first_positive L vs)"

text \<open>The second loop: the running sum of the components that are positive.\<close>

fun sum_positive :: "golib \<Rightarrow> int \<Rightarrow> json list \<Rightarrow> int" where
  "sum_positive L acc [] = acc"
| "sum_positive L acc (v # vs) =
     sum_positive L (if toInt L v > 0 then wrap64 (acc + toInt L v) else acc) vs"

definition total_fields :: "rawUsage \<Rightarrow> json list" where
  "total_fields u = [TotalTokens u, TotalTokens2 u, Total u, Tokens u]"

definition component_fields :: "rawUsage \<Rightarrow> json list" where
  "component_fields u =
     [Input u, Output u, CacheRead u, CacheWrite u, InputTokens u, OutputTokens u,
      CacheReadInputTokens u, CacheCreationInputTokens u, ReasoningTokens u]"

definition extractTotalTokens :: "golib \<Rightarrow> rawUsage \<Rightarrow> int" where
  "extractTotalTokens L u =
     (case first_positive L (total_fields u) of
        Some n \<Rightarrow> n
      | None \<Rightarrow> sum_positive L 0 (component_fields u))"

section \<open>Instants and the calendar\<close>

text \<open>
  A \<open>time.Time\<close> is an instant: seconds since the Unix epoch and nanoseconds within the
  second. The zero \<open>Time\<close> is midnight UTC of 1 January of year 1. Instants beyond the
  range of the 64-bit representation are not part of the model.
\<close>

record Time =
  unixSec :: int
  nsec :: int

definition zeroTime :: Time where
  "zeroTime = \<lparr> unixSec = - 62135596800, nsec = 0 \<rparr>"

definition IsZero :: "Time \<Rightarrow> bool" where
  "IsZero t = (unixSec t = - 62135596800 \<and> nsec t = 0)"

definition time_Unix :: "int \<Rightarrow> Time" where
  "time_Unix s = \<lparr> unixSec = s, nsec = 0 \<rparr>"

text \<open>
  The proleptic Gregorian calendar of package \<open>time\<close>. Days are counted from the Unix
  epoch; day \<open>- 719162\<close> is 1 January of year 1. A date is found by walking the years of
  its 400-year cycle (146097 days), then the months of its year.
\<close>

definition is_leap :: "int \<Rightarrow> bool" where
  "is_leap y = (y mod 4 = 0 \<and> (y mod 100 \<noteq> 0 \<or> y mod 400 = 0))"

definition year_len :: "int \<Rightarrow> int" where
  "year_len y = (if is_leap y then 366 else 365)"

definition daysIn :: "int \<Rightarrow> int \<Rightarrow> int" where
  "daysIn m y =
     (if m = 2 then (if is_leap y then 29 else 28)
      else if m = 4 \<or> m = 6 \<or> m = 9 \<or> m = 11 then 30 else 31)"

function year_loop :: "int \<Rightarrow> int \<Rightarrow> int \<times> int" where
  "year_loop y n = (if year_len y \<le> n then year_loop (y + 1) (n - year_len y) else (y, n))"
  by pat_completeness auto
termination
  by (relation "measure (\<lambda>(y, n). nat n)") (auto simp: year_len_def split: if_splits)

declare year_loop.simps [simp del]

function month_loop :: "int \<Rightarrow> int \<Rightarrow> int \<Rightarrow> int \<times> int" where
  "month_loop y m n =
     (if m < 12 \<and> daysIn m y \<le> n then month_loop y (m + 1) (n - daysIn m y) else (m, n))"
  by pat_completeness auto
termination
  by (relation "measure (\<lambda>(y, m, n). nat (12 - m))") auto

declare month_loop.simps [simp del]

definition civil_from_days :: "int \<Rightarrow> int \<times> int \<times> int" where
  "civil_from_days z =
     (let a = z + 719162;
          (y, doy) = year_loop (400 * (a div 146097) + 1) (a mod 146097);
          (m, d) = month_loop y 1 doy
      in (y, m, d + 1))"

fun sum_years :: "int \<Rightarrow> nat \<Rightarrow> int" where
  "sum_years y 0 = 0"
| "sum_years y (Suc k) = year_len y + sum_years (y + 1) k"

fun sum_months :: "int \<Rightarrow> int \<Rightarrow> nat \<Rightarrow> int" where
  "sum_months y m 0 = 0"
| "sum_months y m (Suc k) = daysIn m y + sum_months y (m + 1) k"

definition days_from_civil :: "int \<Rightarrow> int \<Rightarrow> int \<Rightarrow> int" where
  "days_from_civil y m d =
     146097 * ((y - 1) div 400) + sum_years (400 * ((y - 1) div 400) + 1) (nat ((y - 1) mod 400))
       + sum_months y 1 (nat (m - 1)) + d - 1 - 719162"

text \<open>\<open>time.Date\<close> in UTC, for fields already checked to be in range.\<close>

definition time_Date :: "int \<Rightarrow> int \<Rightarrow> int \<Rightarrow> int \<Rightarrow> int \<Rightarrow> int \<Rightarrow> int \<Rightarrow> Time" where
  "time_Date y m d hh mm ss ns =
     \<lparr> unixSec = days_from_civil y m d * 86400 + hh * 3600 + mm * 60 + ss, nsec = ns \<rparr>"

text \<open>The wall clock of an instant in the local zone: \<open>t.Local()\<close>.\<close>

definition local_secs :: "golib \<Rightarrow> Time \<Rightarrow> int" where
  "local_secs L t = unixSec t + zone_offset L (unixSec t)"

definition clock_Hour :: "int \<Rightarrow> int" where
  "clock_Hour s = (s mod 86400) div 3600"

text \<open>\<open>Weekday\<close>: Sunday is 0; the epoch was a Thursday.\<close>

definition clock_Weekday :: "int \<Rightarrow> int" where
  "clock_Weekday s = (s div 86400 + 4) mod 7"

subsection \<open>Formatting\<close>

definition digit :: "int \<Rightarrow> char" where
  "digit n = char_of (48 + n)"

text \<open>The decimal digits of a number that is not negative.\<close>

function dec :: "int \<Rightarrow> string" where
  "dec n = (if n < 10 then [digit n] else dec (n div 10) @ [digit (n mod 10)])"
  by pat_completeness auto
termination
  by (relation "measure nat") auto

declare dec.simps [simp del]

definition appendInt :: "int \<Rightarrow> nat \<Rightarrow> string" where
  "appendInt x width =
     (let ds = dec \<bar>x\<bar>; padded = replicate (width - length ds) CHR ''0'' @ ds
      in if x < 0 then CHR ''-'' # padded else padded)"

text \<open>\<open>Format("2006-01-02")\<close> of the wall clock \<open>s\<close>.\<close>

definition format_date :: "int \<Rightarrow> string" where
  "format_date s =
     (let (y, m, d) = civil_from_days (s div 86400)
      in appendInt y 4 @ ''-'' @ appendInt m 2 @ ''-'' @ appendInt d 2)"

subsection \<open>Parsing\<close>

definition isDigit :: "char \<Rightarrow> bool" where
  "isDigit c = (48 \<le> (of_char c :: int) \<and> (of_char c :: int) \<le> 57)"

definition digit_val :: "char \<Rightarrow> int" where
  "digit_val c = of_char c - 48"

fun getnum :: "string \<Rightarrow> bool \<Rightarrow> (int \<times> string) option" where
  "getnum [] fixed = None"
| "getnum [a] fixed = (if \<not> isDigit a \<or> fixed then None else Some (digit_val a, []))"
| "getnum (a # b # rest) fixed =
     (if \<not> isDigit a then None
      else if \<not> isDigit b then (if fixed then None else Some (digit_val a, b # rest))
      else Some (digit_val a * 10 + digit_val b, rest))"

text \<open>The year of the layout \<open>2006\<close>: exactly four digits.\<close>

fun getyear :: "string \<Rightarrow> (int \<times> string) option" where
  "getyear (a # b # c # d # rest) =
     (if isDigit a \<and> isDigit b \<and> isDigit c \<and> isDigit d
      then Some (digit_val a * 1000 + digit_val b * 100 + digit_val c * 10 + digit_val d, rest)
      else None)"
| "getyear s = None"

fun expect :: "char \<Rightarrow> string \<Rightarrow> string option" where
  "expect c [] = None"
| "expect c (x # rest) = (if x = c then Some rest else None)"

definition guard :: "bool \<Rightarrow> unit option" where
  "guard b = (if b then Some () else None)"

fun digits_val :: "int \<Rightarrow> string \<Rightarrow> int" where
  "digits_val acc [] = acc"
| "digits_val acc (c # cs) = digits_val (acc * 10 + digit_val c) cs"

fun pow10 :: "nat \<Rightarrow> int" where
  "pow10 0 = 1"
| "pow10 (Suc k) = 10 * pow10 k"

text \<open>
  A fractional second after the seconds, if there is one: a period or a comma and at
  least one digit. All the digits are consumed, the first nine count.
\<close>

definition getfrac :: "string \<Rightarrow> int \<times> string" where
  "getfrac v =
     (case v of
        p # d # rest \<Rightarrow>
          (if (p = CHR ''.'' \<or> p = CHR '','') \<and> isDigit d
           then (let ds = takeWhile isDigit (d # rest); ds9 = take 9 ds
                 in (digits_val 0 ds9 * pow10 (9 - length ds9), dropWhile isDigit (d # rest)))
           else (0, v))
      | _ \<Rightarrow> (0, v))"

text \<open>The zone of the layout \<open>Z07:00\<close>: the offset in seconds east of UTC.\<close>

definition getzone :: "string \<Rightarrow> (int \<times> string) option" where
  "getzone v =
     (case v of
        [] \<Rightarrow> None
      | c # rest \<Rightarrow>
          (if c = CHR ''Z'' then Some (0, rest)
           else if length v < 6 \<or> v ! 3 \<noteq> CHR '':'' then None
           else (case (getnum (take 2 rest) True, getnum (take 2 (drop 4 v)) True) of
                   (Some (hr, r1), Some (mm, r2)) \<Rightarrow>
                     (if hr > 24 \<or> mm > 60 then None
                      else if c = CHR ''+'' then Some ((hr * 60 + mm) * 60, drop 6 v)
                      else if c = CHR ''-'' then Some (- ((hr * 60 + mm) * 60), drop 6 v)
                      else None)
                 | _ \<Rightarrow> None)))"

text \<open>
  \<open>time.Parse\<close> with the layouts \<open>RFC3339Nano\<close> and \<open>RFC3339\<close>. The two accept the same
  strings: a fractional second in the input is read whether or not the layout has one.
\<close>

definition parse_rfc3339 :: "string \<Rightarrow> Time option" where
  "parse_rfc3339 v0 = do {
     (year, v1) \<leftarrow> getyear v0;
     v2 \<leftarrow> expect CHR ''-'' v1;
     (month, v3) \<leftarrow> getnum v2 True;
     _ \<leftarrow> guard (1 \<le> month \<and> month \<le> 12);
     v4 \<leftarrow> expect CHR ''-'' v3;
     (day, v5) \<leftarrow> getnum v4 True;
     v6 \<leftarrow> expect CHR ''T'' v5;
     (hour, v7) \<leftarrow> getnum v6 False;
     _ \<leftarrow> guard (hour < 24);
     v8 \<leftarrow> expect CHR '':'' v7;
     (minute, v9) \<leftarrow> getnum v8 True;
     _ \<leftarrow> guard (minute < 60);
     v10 \<leftarrow> expect CHR '':'' v9;
     (second, v11) \<leftarrow> getnum v10 True;
     _ \<leftarrow> guard (second < 60);
     (zone, v13) \<leftarrow> getzone (snd (getfrac v11));
     _ \<leftarrow> guard (v13 = []);
     _ \<leftarrow> guard (1 \<le> day \<and> day \<le> daysIn month year);
     Some (let t = time_Date year month day hour minute second (fst (getfrac v11))
           in t \<lparr> unixSec := unixSec t - zone \<rparr>)
   }"

text \<open>\<open>time.Parse\<close> with the layout \<open>2006-01-02\<close>.\<close>

definition parse_date :: "string \<Rightarrow> Time option" where
  "parse_date v0 = do {
     (year, v1) \<leftarrow> getyear v0;
     v2 \<leftarrow> expect CHR ''-'' v1;
     (month, v3) \<leftarrow> getnum v2 True;
     _ \<leftarrow> guard (1 \<le> month \<and> month \<le> 12);
     v4 \<leftarrow> expect CHR ''-'' v3;
     (day, v5) \<leftarrow> getnum v4 True;
     _ \<leftarrow> guard (v5 = []);
     _ \<leftarrow> guard (1 \<le> day \<and> day \<le> daysIn month year);
     Some (time_Date year month day 0 0 0 0)
   }"

datatype layout = RFC3339Nano | RFC3339 | DateOnly

fun time_Parse :: "layout \<Rightarrow> string \<Rightarrow> Time option" where
  "time_Parse RFC3339Nano v = parse_rfc3339 v"
| "time_Parse RFC3339 v = parse_rfc3339 v"
| "time_Parse DateOnly v = parse_date v"

section \<open>The record parser\<close>

definition isNumeric :: "string \<Rightarrow> bool" where
  "isNumeric s0 =
     (let s = (case s0 of c # cs \<Rightarrow> (if c = CHR ''-'' then cs else s0) | [] \<Rightarrow> s0)
      in list_all isDigit s \<and> length s > 0)"

text \<open>\<open>strings.Replace(s, "Z", "+00:00", 1)\<close>.\<close>

fun replaceZ :: "string \<Rightarrow> string" where
  "replaceZ [] = []"
| "replaceZ (c # cs) = (if c = CHR ''Z'' then ''+00:00'' @ cs else c # replaceZ cs)"

definition parseTimestampToTime :: "golib \<Rightarrow> json \<Rightarrow> Time" where
  "parseTimestampToTime L ts =
    (case ts of
       JNull \<Rightarrow> zeroTime
     | JNum v \<Rightarrow>
         (let sec = (if v > 10000000000 then v / 1000 else v)
          in time_Unix (int_of_float L sec))
     | JStr v \<Rightarrow>
         (let s = TrimSpace v in
          if s = [] then zeroTime
          else if isNumeric s then
            (case strconv_ParseFloat L s of
               None \<Rightarrow> zeroTime
             | Some f \<Rightarrow> time_Unix (int_of_float L (if length s \<ge> 13 then f / 1000 else f)))
          else
            (let iso = replaceZ s in
             case time_Parse RFC3339Nano iso of
               Some t \<Rightarrow> t
             | None \<Rightarrow>
                 (case time_Parse RFC3339 iso of
                    Some t \<Rightarrow> t
                  | None \<Rightarrow>
                      (if length s \<ge> 10 \<and> s ! 4 = CHR ''-'' \<and> s ! 7 = CHR ''-''
                       then (case time_Parse DateOnly (take 10 s) of
                               Some t \<Rightarrow> t
                             | None \<Rightarrow> zeroTime)
                       else zeroTime))))
     | _ \<Rightarrow> zeroTime)"

definition parseTimestampToDate :: "golib \<Rightarrow> json \<Rightarrow> string" where
  "parseTimestampToDate L ts =
     (let t = parseTimestampToTime L ts
      in if IsZero t then [] else format_date (local_secs L t))"

definition parseTimestampToHourDOW :: "golib \<Rightarrow> json \<Rightarrow> int option \<times> int option" where
  "parseTimestampToHourDOW L ts =
     (let t = parseTimestampToTime L ts in
      if IsZero t then (None, None)
      else (let lt = local_secs L t;
                h = clock_Hour lt;
                wd = clock_Weekday lt;
                dow = (wd + 6) mod 7
            in (Some h, Some dow)))"

definition extractUsage :: "rawRecord \<Rightarrow> rawUsage option" where
  "extractUsage rec =
     (case (case rr_Message rec of
              None \<Rightarrow> None
            | Some m \<Rightarrow>
                (case decode_rawMessage m of
                   None \<Rightarrow> None
                 | Some msg \<Rightarrow>
                     (case rm_Usage msg of None \<Rightarrow> None | Some uj \<Rightarrow> decode_rawUsage uj))) of
        Some u \<Rightarrow> Some u
      | None \<Rightarrow> (case rr_Usage rec of None \<Rightarrow> None | Some uj \<Rightarrow> decode_rawUsage uj))"

fun first_nonempty :: "string list \<Rightarrow> string option" where
  "first_nonempty [] = None"
| "first_nonempty (s # ss) = (if TrimSpace s \<noteq> [] then Some (TrimSpace s) else first_nonempty ss)"

definition extractModel :: "rawRecord \<Rightarrow> string" where
  "extractModel rec =
     (case (case rr_Message rec of
              None \<Rightarrow> None
            | Some m \<Rightarrow>
                (case decode_rawMessage m of
                   None \<Rightarrow> None
                 | Some msg \<Rightarrow> first_nonempty [rm_Model msg, rm_ModelID msg, rm_ModelID2 msg])) of
        Some s \<Rightarrow> s
      | None \<Rightarrow>
          (case first_nonempty [rr_Model rec, rr_ModelID rec, rr_ModelID2 rec] of
             Some s \<Rightarrow> s
           | None \<Rightarrow> ''unknown''))"

definition extractCost :: "rawRecord \<Rightarrow> rawUsage \<Rightarrow> real" where
  "extractCost rec u =
     (case rr_CostUsd rec of
        Some c \<Rightarrow> c
      | None \<Rightarrow>
          (case Cost u of
             JNum v \<Rightarrow> v
           | JObj kvs \<Rightarrow> (case map_of (rev kvs) ''total'' of Some (JNum f) \<Rightarrow> f | _ \<Rightarrow> 0)
           | _ \<Rightarrow> 0))"

definition extractTimestamp :: "rawRecord \<Rightarrow> json" where
  "extractTimestamp rec =
     (if rr_Timestamp rec \<noteq> JNull then rr_Timestamp rec
      else (case rr_Message rec of
              Some (JObj kvs) \<Rightarrow> (case map_of (rev kvs) ''timestamp'' of Some ts \<Rightarrow> ts | None \<Rightarrow> JNull)
            | _ \<Rightarrow> JNull))"

definition ParseLine :: "golib \<Rightarrow> string \<Rightarrow> string \<Rightarrow> UsageRecord option" where
  "ParseLine L agentName line0 =
     (let line = TrimSpace line0 in
      if line = [] then None
      else
        (case json_Unmarshal L line of
           None \<Rightarrow> None
         | Some j \<Rightarrow>
             (case decode_rawRecord j of
                None \<Rightarrow> None
              | Some rec \<Rightarrow>
                  (case extractUsage rec of
                     None \<Rightarrow> None
                   | Some usage \<Rightarrow>
                       (let tokens = extractTotalTokens L usage in
                        if tokens \<le> 0 then None
                        else
                          (let ts = extractTimestamp rec;
                               dateKey0 = parseTimestampToDate L ts;
                               dateKey = (if dateKey0 = [] then ''unknown'' else dateKey0);
                               cost = extractCost rec usage;
                               model = extractModel rec;
                               (hour, dow) = parseTimestampToHourDOW L ts
                           in Some \<lparr> AgentName = agentName, Model = model, DateKey = dateKey,
                                     Tokens_of = tokens, Cost_of = cost,
                                     Hour = hour, DOW = dow \<rparr>))))))"

section \<open>The cache\<close>

text \<open>
  The two tables of the SQLite cache. \<open>usage_row_v1\<close> has the columns that the queries
  of \<open>CollectStats\<close> read; \<open>usage_row\<close> adds the provenance of a row, its source file and
  the byte offset of its line, with a unique index on the pair. Failures of the database
  itself (begin, prepare, savepoint, commit) are not modelled; a violated unique index is.
\<close>

record SessionFile =
  sf_AgentName :: string
  sf_Path :: string

record file_state_row =
  file_path :: string
  fs_agent_name :: string
  last_offset :: int

record usage_row_v1 =
  row_id :: int
  agent_name :: string
  model :: string
  date_key :: string
  tokens :: int
  cost :: real
  hour :: "int option"
  dow :: "int option"

record usage_row = usage_row_v1 +
  source_file :: string
  source_offset :: int

record 'r database =
  file_state :: "file_state_row list"
  usage_records :: "'r list"
  next_id :: int

record SyncResult =
  NewRecords :: int
  SyncedFiles :: int
  SkippedFiles :: int

datatype error = ErrStat | ErrTooLong | ErrConstraint

type_synonym filesystem = "string \<Rightarrow> string option"

definition empty_db :: "'r database" where
  "empty_db = \<lparr> file_state = [], usage_records = [], next_id = 1 \<rparr>"

subsection \<open>The line scanner\<close>

text \<open>
  \<open>bufio.Scanner\<close> with the default split function \<open>ScanLines\<close>: the input is cut at
  each newline, a last piece without a newline is a line too if it is not empty, and one
  trailing carriage return is dropped from each line. A line that does not fit in the
  buffer of \<open>2*1024*1024\<close> bytes together with its newline stops the scan with an error.
\<close>

definition maxTokenSize :: int where
  "maxTokenSize = 2097152"

definition dropCR :: "string \<Rightarrow> string" where
  "dropCR l = (if l \<noteq> [] \<and> last l = CHR 0x0D then butlast l else l)"

fun split_acc :: "string \<Rightarrow> string \<Rightarrow> string list" where
  "split_acc acc [] = (if acc = [] then [] else [rev acc])"
| "split_acc acc (c # cs) =
     (if c = CHR 0x0A then rev acc # split_acc [] cs else split_acc (c # acc) cs)"

definition raw_lines :: "string \<Rightarrow> string list" where
  "raw_lines data = split_acc [] data"

text \<open>What the running offset advances by over the lines of a scan.\<close>

definition advance :: "string list \<Rightarrow> int" where
  "advance pieces = (\<Sum>p\<leftarrow>pieces. int (length (dropCR p)) + 1)"

subsection \<open>\<open>syncOneFile\<close> and \<open>Sync\<close>\<close>

definition insert_record ::
  "usage_row database \<Rightarrow> UsageRecord \<Rightarrow> string \<Rightarrow> int \<Rightarrow> error + usage_row database" where
  "insert_record db rec path lineOffset =
     (if \<exists>r \<in> set (usage_records db). source_file r = path \<and> source_offset r = lineOffset
      then Inl ErrConstraint
      else Inr (db \<lparr> usage_records := usage_records db @
                     [\<lparr> row_id = next_id db, agent_name = AgentName rec, model = Model rec,
                        date_key = DateKey rec, tokens = Tokens_of rec, cost = Cost_of rec,
                        hour = Hour rec, dow = DOW rec,
                        source_file = path, source_offset = lineOffset \<rparr>],
                   next_id := next_id db + 1 \<rparr>))"

fun scan_loop ::
  "golib \<Rightarrow> SessionFile \<Rightarrow> string list \<Rightarrow> int \<Rightarrow> int \<Rightarrow> usage_row database
     \<Rightarrow> error + (int \<times> int \<times> usage_row database)" where
  "scan_loop L sf [] newOffset batchCount db = Inr (newOffset, batchCount, db)"
| "scan_loop L sf (piece # rest) newOffset batchCount db =
     (if int (length piece) \<ge> maxTokenSize then Inl ErrTooLong
      else
        (let raw = dropCR piece;
             lineOffset = newOffset;
             newOffset' = newOffset + int (length raw) + 1
         in case ParseLine L (sf_AgentName sf) raw of
              None \<Rightarrow> scan_loop L sf rest newOffset' batchCount db
            | Some rec \<Rightarrow>
                (case insert_record db rec (sf_Path sf) lineOffset of
                   Inl e \<Rightarrow> Inl e
                 | Inr db' \<Rightarrow> scan_loop L sf rest newOffset' (batchCount + 1) db')))"

definition stored_offset :: "'r database \<Rightarrow> string \<Rightarrow> int option" where
  "stored_offset db path =
     map_option last_offset (find (\<lambda>r. file_path r = path) (file_state db))"

definition set_offset :: "'r database \<Rightarrow> string \<Rightarrow> int \<Rightarrow> 'r database" where
  "set_offset db path off =
     db \<lparr> file_state :=
            map (\<lambda>r. if file_path r = path then r \<lparr> last_offset := off \<rparr> else r) (file_state db) \<rparr>"

definition add_file_state :: "'r database \<Rightarrow> SessionFile \<Rightarrow> int \<Rightarrow> 'r database" where
  "add_file_state db sf off =
     db \<lparr> file_state := file_state db @
            [\<lparr> file_path = sf_Path sf, fs_agent_name = sf_AgentName sf, last_offset = off \<rparr>] \<rparr>"

definition delete_file_records :: "usage_row database \<Rightarrow> string \<Rightarrow> usage_row database" where
  "delete_file_records db path =
     db \<lparr> usage_records := filter (\<lambda>r. source_file r \<noteq> path) (usage_records db) \<rparr>"

text \<open>
  One file. \<open>Inl\<close> is an error return: the caller rolls the file's changes back. The
  file system gives the content of a path, \<open>None\<close> when \<open>os.Stat\<close> fails.
\<close>

definition syncOneFile ::
  "golib \<Rightarrow> filesystem \<Rightarrow> usage_row database \<Rightarrow> SessionFile
     \<Rightarrow> error + (bool \<times> int \<times> usage_row database)" where
  "syncOneFile L fs db sf =
     (let hasRow = (stored_offset db (sf_Path sf) \<noteq> None);
          lastOffset0 = (case stored_offset db (sf_Path sf) of None \<Rightarrow> 0 | Some off \<Rightarrow> off)
      in case fs (sf_Path sf) of
           None \<Rightarrow> Inl ErrStat
         | Some content \<Rightarrow>
             (let size = int (length content);
                  truncated = (hasRow \<and> size < lastOffset0);
                  db1 = (if truncated
                         then set_offset (delete_file_records db (sf_Path sf)) (sf_Path sf) 0
                         else db);
                  lastOffset = (if truncated then 0 else lastOffset0)
              in if size \<le> lastOffset then Inr (False, 0, db1)
                 else
                   (case scan_loop L sf (raw_lines (drop (nat lastOffset) content))
                           lastOffset 0 db1 of
                      Inl e \<Rightarrow> Inl e
                    | Inr (newOffset, batchCount, db2) \<Rightarrow>
                        Inr (True, batchCount,
                             if hasRow then set_offset db2 (sf_Path sf) newOffset
                             else add_file_state db2 sf newOffset))))"

text \<open>
  The loop of \<open>Sync\<close> over the session files (the result of \<open>IterSessionFiles\<close>), each
  inside its savepoint: after an error the cache is the one before the file.
\<close>

fun sync_files ::
  "golib \<Rightarrow> filesystem \<Rightarrow> SessionFile list \<Rightarrow> usage_row database \<Rightarrow> SyncResult
     \<Rightarrow> usage_row database \<times> SyncResult" where
  "sync_files L fs [] db result = (db, result)"
| "sync_files L fs (sf # files) db result =
     (case syncOneFile L fs db sf of
        Inl e \<Rightarrow> sync_files L fs files db (result \<lparr> SkippedFiles := SkippedFiles result + 1 \<rparr>)
      | Inr (synced, newRecords, db') \<Rightarrow>
          (if synced
           then sync_files L fs files db'
                  (result \<lparr> SyncedFiles := SyncedFiles result + 1,
                            NewRecords := NewRecords result + newRecords \<rparr>)
           else sync_files L fs files db'
                  (result \<lparr> SkippedFiles := SkippedFiles result + 1 \<rparr>)))"

definition Sync ::
  "golib \<Rightarrow> filesystem \<Rightarrow> SessionFile list \<Rightarrow> usage_row database
     \<Rightarrow> usage_row database \<times> SyncResult" where
  "Sync L fs files db =
     sync_files L fs files db \<lparr> NewRecords = 0, SyncedFiles = 0, SkippedFiles = 0 \<rparr>"

section \<open>Aggregation\<close>

record AgentTotal =
  at_Agent :: string
  at_Tokens :: int
  at_Cost :: real
  at_Records :: int

record ModelTotal =
  mt_Model :: string
  mt_Tokens :: int
  mt_Cost :: real
  mt_Records :: int

record DailyTokens =
  dt_Date :: string
  dt_Tokens :: int
  dt_Cost :: real
  dt_Records :: int

record HeatmapCell =
  hc_DOW :: int
  hc_Hour :: int
  hc_Tokens :: int
  hc_Cost :: real

record Summary =
  TotalTokens_of :: int
  TotalCost :: real
  UsageRecords :: int
  SessionFiles :: int
  AgentCount :: int
  ModelCount :: int
  DayCount :: int

record StatsResponse =
  Source :: string
  Cached :: bool
  Sync_of :: SyncResult
  Summary_of :: Summary
  AgentTotals :: "AgentTotal list"
  ModelTotals :: "ModelTotal list"
  DailyTokens_of :: "DailyTokens list"
  Heatmap :: "HeatmapCell list"

text \<open>
  SQLite compares two \<open>TEXT\<close> values byte by byte, a proper prefix being smaller.
\<close>

fun text_le :: "string \<Rightarrow> string \<Rightarrow> bool" where
  "text_le [] ys = True"
| "text_le (x # xs) [] = False"
| "text_le (x # xs) (y # ys) =
     (if x = y then text_le xs ys else (of_char x :: int) < of_char y)"

text \<open>The conditions collected in \<open>rangeParts\<close>.\<close>

definition rangeParts :: "string \<Rightarrow> string \<Rightarrow> (('a usage_row_v1_scheme) \<Rightarrow> bool) list" where
  "rangeParts startDate endDate =
     (if startDate \<noteq> [] then [\<lambda>r. text_le startDate (date_key r)] else []) @
     (if endDate \<noteq> [] then [\<lambda>r. text_le (date_key r) endDate] else [])"

text \<open>The filter \<open>dateWhere\<close>: with a bound, no undated row and every bound given.\<close>

definition dateWhere :: "string \<Rightarrow> string \<Rightarrow> ('a usage_row_v1_scheme) \<Rightarrow> bool" where
  "dateWhere startDate endDate r =
     (if length (rangeParts startDate endDate :: (('a usage_row_v1_scheme) \<Rightarrow> bool) list) > 0
      then date_key r \<noteq> ''unknown'' \<and> list_all (\<lambda>p. p r) (rangeParts startDate endDate)
      else True)"

text \<open>
  \<open>GROUP BY\<close> with \<open>SUM(tokens)\<close>, \<open>SUM(cost)\<close> and \<open>COUNT(*)\<close>: one pass over the rows,
  each row added to the group of its key or opening a new group. Integer sums are
  unbounded here (SQLite raises an error instead of wrapping).
\<close>

fun add_to_group ::
  "'k \<Rightarrow> ('a usage_row_v1_scheme) \<Rightarrow> ('k \<times> int \<times> real \<times> int) list
     \<Rightarrow> ('k \<times> int \<times> real \<times> int) list" where
  "add_to_group k r [] = [(k, tokens r, cost r, 1)]"
| "add_to_group k r ((k', t, c, n) # gs) =
     (if k = k' then (k', t + tokens r, c + cost r, n + 1) # gs
      else (k', t, c, n) # add_to_group k r gs)"

fun group_rows ::
  "(('a usage_row_v1_scheme) \<Rightarrow> 'k) \<Rightarrow> ('a usage_row_v1_scheme) list
     \<Rightarrow> ('k \<times> int \<times> real \<times> int) list \<Rightarrow> ('k \<times> int \<times> real \<times> int) list" where
  "group_rows key [] gs = gs"
| "group_rows key (r # rs) gs = group_rows key rs (add_to_group (key r) r gs)"

text \<open>The token sum of the group of a key, zero when there is no such group.\<close>

definition group_tokens :: "('k \<times> int \<times> real \<times> int) list \<Rightarrow> 'k \<Rightarrow> int" where
  "group_tokens gs k = (case map_of gs k of Some (t, c, n) \<Rightarrow> t | None \<Rightarrow> 0)"

text \<open>
  \<open>ORDER BY\<close>: a stable insertion sort by the given order. The order of rows that
  compare equal is not fixed by SQL; here they stay in the order of their first row.
\<close>

fun insert_by :: "('a \<Rightarrow> 'a \<Rightarrow> bool) \<Rightarrow> 'a \<Rightarrow> 'a list \<Rightarrow> 'a list" where
  "insert_by le x [] = [x]"
| "insert_by le x (y # ys) = (if le x y then x # y # ys else y # insert_by le x ys)"

definition order_by :: "('a \<Rightarrow> 'a \<Rightarrow> bool) \<Rightarrow> 'a list \<Rightarrow> 'a list" where
  "order_by le xs = foldr (insert_by le) xs []"

definition tokens_desc :: "('k \<times> int \<times> real \<times> int) \<Rightarrow> ('k \<times> int \<times> real \<times> int) \<Rightarrow> bool" where
  "tokens_desc a b = (fst (snd a) \<ge> fst (snd b))"

text \<open>\<open>ORDER BY CASE WHEN date_key = 'unknown' THEN 1 ELSE 0 END, date_key\<close>.\<close>

definition date_order ::
  "(string \<times> int \<times> real \<times> int) \<Rightarrow> (string \<times> int \<times> real \<times> int) \<Rightarrow> bool" where
  "date_order a b =
     (let fa = (if fst a = ''unknown'' then 1 else 0 :: int);
          fb = (if fst b = ''unknown'' then 1 else 0 :: int)
      in fa < fb \<or> (fa = fb \<and> text_le (fst a) (fst b)))"

text \<open>\<open>ORDER BY dow, hour\<close>.\<close>

definition cell_order ::
  "((int \<times> int) \<times> int \<times> real \<times> int) \<Rightarrow> ((int \<times> int) \<times> int \<times> real \<times> int) \<Rightarrow> bool" where
  "cell_order a b =
     (fst (fst a) < fst (fst b) \<or> (fst (fst a) = fst (fst b) \<and> snd (fst a) \<le> snd (fst b)))"

definition roundFloat :: "golib \<Rightarrow> real \<Rightarrow> real" where
  "roundFloat L f = real_of_int (int_of_float L (f * 1000000 + 0.5)) / 1000000"

text \<open>
  The five queries of \<open>CollectStats\<close> over the rows of \<open>usage_records\<close>, for a given
  filter, and the response built from them.
\<close>

definition heatmap_rows ::
  "(('a usage_row_v1_scheme) \<Rightarrow> bool) \<Rightarrow> ('a usage_row_v1_scheme) list
     \<Rightarrow> ('a usage_row_v1_scheme) list" where
  "heatmap_rows wh rows = filter (\<lambda>r. hour r \<noteq> None \<and> dow r \<noteq> None \<and> wh r) rows"

definition heatmap_query ::
  "golib \<Rightarrow> (('a usage_row_v1_scheme) \<Rightarrow> bool) \<Rightarrow> ('a usage_row_v1_scheme) list
     \<Rightarrow> HeatmapCell list" where
  "heatmap_query L wh rows =
     map (\<lambda>((d, h), t, c, n). \<lparr> hc_DOW = d, hc_Hour = h, hc_Tokens = t, hc_Cost = roundFloat L c \<rparr>)
       (order_by cell_order
          (group_rows (\<lambda>r. (the (dow r), the (hour r))) (heatmap_rows wh rows) []))"

definition agent_query ::
  "golib \<Rightarrow> (('a usage_row_v1_scheme) \<Rightarrow> bool) \<Rightarrow> ('a usage_row_v1_scheme) list
     \<Rightarrow> AgentTotal list" where
  "agent_query L wh rows =
     map (\<lambda>(k, t, c, n). \<lparr> at_Agent = k, at_Tokens = t, at_Cost = roundFloat L c, at_Records = n \<rparr>)
       (order_by tokens_desc (group_rows agent_name (filter wh rows) []))"

definition model_query ::
  "golib \<Rightarrow> (('a usage_row_v1_scheme) \<Rightarrow> bool) \<Rightarrow> ('a usage_row_v1_scheme) list
     \<Rightarrow> ModelTotal list" where
  "model_query L wh rows =
     map (\<lambda>(k, t, c, n). \<lparr> mt_Model = k, mt_Tokens = t, mt_Cost = roundFloat L c, mt_Records = n \<rparr>)
       (order_by tokens_desc (group_rows model (filter wh rows) []))"

definition daily_query ::
  "golib \<Rightarrow> (('a usage_row_v1_scheme) \<Rightarrow> bool) \<Rightarrow> ('a usage_row_v1_scheme) list
     \<Rightarrow> DailyTokens list" where
  "daily_query L wh rows =
     map (\<lambda>(k, t, c, n). \<lparr> dt_Date = k, dt_Tokens = t, dt_Cost = roundFloat L c, dt_Records = n \<rparr>)
       (order_by date_order (group_rows date_key (filter wh rows) []))"

definition aggregate ::
  "golib \<Rightarrow> (('a usage_row_v1_scheme) \<Rightarrow> bool) \<Rightarrow> string \<Rightarrow> SyncResult
     \<Rightarrow> ('a usage_row_v1_scheme) database \<Rightarrow> StatsResponse" where
  "aggregate L wh agentsDir syncResult db =
     (let rows = usage_records db;
          totalRecords = int (length (filter wh rows));
          totalTokens = sum_list (map tokens (filter wh rows));
          totalCost = sum_list (map cost (filter wh rows));
          sessionFiles = int (length (file_state db));
          agentTotals = agent_query L wh rows;
          modelTotals = model_query L wh rows;
          daily = daily_query L wh rows;
          heatmap = heatmap_query L wh rows
      in \<lparr> Source = agentsDir, Cached = True, Sync_of = syncResult,
           Summary_of = \<lparr> TotalTokens_of = totalTokens, TotalCost = roundFloat L totalCost,
                          UsageRecords = totalRecords, SessionFiles = sessionFiles,
                          AgentCount = int (length agentTotals),
                          ModelCount = int (length modelTotals),
                          DayCount = int (length daily) \<rparr>,
           AgentTotals = agentTotals, ModelTotals = modelTotals,
           DailyTokens_of = daily, Heatmap = heatmap \<rparr>)"

text \<open>
  \<open>CollectStats\<close>: a sync pass, then the queries on the cache it leaves. The time stamp
  \<open>generated_at\<close> of the response is the wall clock and is left out.
\<close>

definition CollectStats ::
  "golib \<Rightarrow> filesystem \<Rightarrow> SessionFile list \<Rightarrow> string \<Rightarrow> usage_row database
     \<Rightarrow> string \<Rightarrow> string \<Rightarrow> usage_row database \<times> StatsResponse" where
  "CollectStats L fs files agentsDir db startDate endDate =
     (case Sync L fs files db of
        (db', syncResult) \<Rightarrow>
          (db', aggregate L (dateWhere startDate endDate) agentsDir syncResult db'))"

section \<open>Example inputs\<close>

text \<open>
  A library instance for the examples: the decoder is given by the table of the lines it
  is asked about, \<open>ParseFloat\<close> reads plain decimal numerals (a sign, digits, a fraction),
  the local zone has the fixed offset \<open>off\<close>, and an out-of-range conversion gives the
  smallest \<open>int64\<close>, as it does on amd64.
\<close>

definition decimal_ParseFloat :: "string \<Rightarrow> real option" where
  "decimal_ParseFloat s0 =
     (let neg = (s0 \<noteq> [] \<and> hd s0 = CHR ''-'');
          s = (if s0 \<noteq> [] \<and> (hd s0 = CHR ''-'' \<or> hd s0 = CHR ''+'') then tl s0 else s0);
          ip = takeWhile isDigit s;
          fp = (case dropWhile isDigit s of [] \<Rightarrow> [] | c # cs \<Rightarrow> cs);
          v = real_of_int (digits_val 0 ip) + real_of_int (digits_val 0 fp) / real_of_int (pow10 (length fp))
      in if (ip = [] \<and> fp = []) \<or> \<not> list_all isDigit fp
            \<or> (case dropWhile isDigit s of [] \<Rightarrow> False | c # cs \<Rightarrow> c \<noteq> CHR ''.'')
         then None
         else Some (if neg then - v else v))"

definition example_lib :: "int \<Rightarrow> (string \<times> json) list \<Rightarrow> golib" where
  "example_lib off table =
     \<lparr> json_Unmarshal = map_of table, strconv_ParseFloat = decimal_ParseFloat,
       zone_offset = (\<lambda>t. off), conv_overflow = (\<lambda>f. - 9223372036854775808) \<rparr>"

text \<open>The lines that \<open>writeSessionTokens\<close> of \<open>db_test.go\<close> writes, and their decoded form.\<close>

definition test_line :: "int \<Rightarrow> int \<Rightarrow> string" where
  \<open>test_line i tok =
     ''{"timestamp":"2026-02-17T00:'' @ appendInt i 2 @ '':00Z","model":"test-model","usage":{"input_tokens":''
       @ dec tok @ '',"output_tokens":0}}''\<close>

definition test_doc :: "int \<Rightarrow> int \<Rightarrow> json" where
  "test_doc i tok =
     JObj [(''timestamp'', JStr (''2026-02-17T00:'' @ appendInt i 2 @ '':00Z'')),
           (''model'', JStr ''test-model''),
           (''usage'', JObj [(''input_tokens'', JNum (real_of_int tok)), (''output_tokens'', JNum 0)])]"

fun session_lines :: "int \<Rightarrow> int list \<Rightarrow> string" where
  "session_lines i [] = []"
| "session_lines i (tok # toks) = test_line i tok @ [CHR 0x0A] @ session_lines (i + 1) toks"

definition writeSessionTokens :: "int list \<Rightarrow> string" where
  "writeSessionTokens toks = session_lines 0 toks"

definition test_table :: "(string \<times> json) list" where
  "test_table =
     [(test_line 0 10, test_doc 0 10), (test_line 1 20, test_doc 1 20),
      (test_line 0 5, test_doc 0 5), (test_line 0 7, test_doc 0 7)]"

definition test_lib :: golib where
  "test_lib = example_lib 0 test_table"

definition fileA :: SessionFile where
  "fileA = \<lparr> sf_AgentName = ''alpha'', sf_Path = ''agents/alpha/sessions/a.jsonl'' \<rparr>"

definition fileB :: SessionFile where
  "fileB = \<lparr> sf_AgentName = ''alpha'', sf_Path = ''agents/alpha/sessions/b.jsonl'' \<rparr>"

definition fs_first :: filesystem where
  "fs_first = [sf_Path fileA \<mapsto> writeSessionTokens [10, 20], sf_Path fileB \<mapsto> writeSessionTokens [5]]"

definition fs_rewritten :: filesystem where
  "fs_rewritten = [sf_Path fileA \<mapsto> writeSessionTokens [7], sf_Path fileB \<mapsto> writeSessionTokens [5]]"

text \<open>
  The three sync passes of the test in \<open>db_test.go\<close>: a first pass, a pass after file
  A has been rewritten, and a pass with no further change.
\<close>

definition pass1 :: "usage_row database \<times> SyncResult" where
  "pass1 = Sync test_lib fs_first [fileA, fileB] empty_db"

definition pass2 :: "usage_row database \<times> SyncResult" where
  "pass2 = Sync test_lib fs_rewritten [fileA, fileB] (fst pass1)"

definition pass3 :: "usage_row database \<times> SyncResult" where
  "pass3 = Sync test_lib fs_rewritten [fileA, fileB] (fst pass2)"

text \<open>The caches those passes are expected to leave.\<close>

definition cache_after_first :: "usage_row database" where
  "cache_after_first =
     \<lparr> file_state =
         [\<lparr> file_path = ''agents/alpha/sessions/a.jsonl'', fs_agent_name = ''alpha'', last_offset = 208 \<rparr>,
          \<lparr> file_path = ''agents/alpha/sessions/b.jsonl'', fs_agent_name = ''alpha'', last_offset = 103 \<rparr>],
       usage_records =
         [\<lparr> row_id = 1, agent_name = ''alpha'', model = ''test-model'', date_key = ''2026-02-17'',
            tokens = 10, cost = 0, hour = Some 0, dow = Some 1,
            source_file = ''agents/alpha/sessions/a.jsonl'', source_offset = 0 \<rparr>,
          \<lparr> row_id = 2, agent_name = ''alpha'', model = ''test-model'', date_key = ''2026-02-17'',
            tokens = 20, cost = 0, hour = Some 0, dow = Some 1,
            source_file = ''agents/alpha/sessions/a.jsonl'', source_offset = 104 \<rparr>,
          \<lparr> row_id = 3, agent_name = ''alpha'', model = ''test-model'', date_key = ''2026-02-17'',
            tokens = 5, cost = 0, hour = Some 0, dow = Some 1,
            source_file = ''agents/alpha/sessions/b.jsonl'', source_offset = 0 \<rparr>],
       next_id = 4 \<rparr>"

definition cache_after_rewrite :: "usage_row database" where
  "cache_after_rewrite =
     \<lparr> file_state =
         [\<lparr> file_path = ''agents/alpha/sessions/a.jsonl'', fs_agent_name = ''alpha'', last_offset = 103 \<rparr>,
          \<lparr> file_path = ''agents/alpha/sessions/b.jsonl'', fs_agent_name = ''alpha'', last_offset = 103 \<rparr>],
       usage_records =
         [\<lparr> row_id = 3, agent_name = ''alpha'', model = ''test-model'', date_key = ''2026-02-17'',
            tokens = 5, cost = 0, hour = Some 0, dow = Some 1,
            source_file = ''agents/alpha/sessions/b.jsonl'', source_offset = 0 \<rparr>,
          \<lparr> row_id = 4, agent_name = ''alpha'', model = ''test-model'', date_key = ''2026-02-17'',
            tokens = 7, cost = 0, hour = Some 0, dow = Some 1,
            source_file = ''agents/alpha/sessions/a.jsonl'', source_offset = 0 \<rparr>],
       next_id = 5 \<rparr>"

text \<open>
  A file whose only line has no newline at its end, and a file with Windows line ends
  whose last line has none.
\<close>

definition fs_unterminated :: filesystem where
  "fs_unterminated = [sf_Path fileA \<mapsto> test_line 0 7]"

definition fs_crlf :: filesystem where
  "fs_crlf = [sf_Path fileA \<mapsto> [CHR ''a'', CHR 0x0D, CHR 0x0A, CHR ''b'']]"

definition cache_unterminated :: "int \<Rightarrow> usage_row database" where
  "cache_unterminated i =
     \<lparr> file_state =
         [\<lparr> file_path = ''agents/alpha/sessions/a.jsonl'', fs_agent_name = ''alpha'', last_offset = 103 \<rparr>],
       usage_records =
         [\<lparr> row_id = i, agent_name = ''alpha'', model = ''test-model'', date_key = ''2026-02-17'',
            tokens = 7, cost = 0, hour = Some 0, dow = Some 1,
            source_file = ''agents/alpha/sessions/a.jsonl'', source_offset = 0 \<rparr>],
       next_id = i + 1 \<rparr>"

text \<open>
  A cache with records of three days, a Monday, a Tuesday and a Wednesday, and one
  record without a date, for the date filter and the heat map.
\<close>

definition mixed_cache :: "usage_row database" where
  "mixed_cache =
     \<lparr> file_state = [],
       usage_records =
         [\<lparr> row_id = 1, agent_name = ''alpha'', model = ''test-model'', date_key = ''2026-02-16'',
            tokens = 3, cost = 0, hour = Some 23, dow = Some 0,
            source_file = ''agents/alpha/sessions/a.jsonl'', source_offset = 0 \<rparr>,
          \<lparr> row_id = 2, agent_name = ''alpha'', model = ''test-model'', date_key = ''2026-02-17'',
            tokens = 10, cost = 0, hour = Some 0, dow = Some 1,
            source_file = ''agents/alpha/sessions/a.jsonl'', source_offset = 104 \<rparr>,
          \<lparr> row_id = 3, agent_name = ''beta'', model = ''other-model'', date_key = ''unknown'',
            tokens = 5, cost = 0, hour = None, dow = None,
            source_file = ''agents/beta/sessions/c.jsonl'', source_offset = 0 \<rparr>,
          \<lparr> row_id = 4, agent_name = ''alpha'', model = ''test-model'', date_key = ''2026-02-17'',
            tokens = 20, cost = 0, hour = Some 0, dow = Some 1,
            source_file = ''agents/alpha/sessions/b.jsonl'', source_offset = 0 \<rparr>,
          \<lparr> row_id = 5, agent_name = ''beta'', model = ''other-model'', date_key = ''2026-02-18'',
            tokens = 4, cost = 0, hour = Some 5, dow = Some 2,
            source_file = ''agents/beta/sessions/c.jsonl'', source_offset = 60 \<rparr>],
       next_id = 6 \<rparr>"

text \<open>Lines for the token total: an explicit total of zero, and a negative component.\<close>

definition zero_total_line :: string where
  \<open>zero_total_line = ''{"usage":{"total_tokens":0,"input_tokens":5}}''\<close>

definition zero_total_doc :: json where
  "zero_total_doc = JObj [(''usage'', JObj [(''total_tokens'', JNum 0), (''input_tokens'', JNum 5)])]"

definition negative_part_line :: string where
  \<open>negative_part_line = ''{"usage":{"input_tokens":10,"output_tokens":-3}}''\<close>

definition negative_part_doc :: json where
  "negative_part_doc =
     JObj [(''usage'', JObj [(''input_tokens'', JNum 10), (''output_tokens'', JNum (- 3))])]"

definition totals_lib :: golib where
  "totals_lib =
     example_lib 0 [(zero_total_line, zero_total_doc), (negative_part_line, negative_part_doc)]"







section \<open>Properties of the token coercion\<close>

lemma trunc_nonneg: "0 \<le> x \<Longrightarrow> trunc x = \<lfloor>x\<rfloor>"
  by (simp add: trunc_def)

lemma trunc_nonpos: "x \<le> 0 \<Longrightarrow> trunc x = \<lceil>x\<rceil>"
  by (cases "x = 0") (simp_all add: trunc_def)

lemma int_of_float_nonneg:
  assumes "0 \<le> x" "x < 9223372036854775808"
  shows "int_of_float L x = \<lfloor>x\<rfloor>"
proof -
  have "\<lfloor>x\<rfloor> < 9223372036854775808" using assms(2) by (simp add: floor_less_iff)
  moreover have "0 \<le> \<lfloor>x\<rfloor>" using assms(1) by simp
  ultimately show ?thesis using assms(1) by (simp add: int_of_float_def trunc_nonneg)
qed

lemma int_of_float_nonpos:
  assumes "x \<le> 0" "- 9223372036854775808 \<le> x"
  shows "int_of_float L x = \<lceil>x\<rceil>"
proof -
  have "- 9223372036854775808 \<le> \<lceil>x\<rceil>" using assms(2) by (simp add: le_ceiling_iff)
  moreover have "\<lceil>x\<rceil> \<le> 0" using assms(1) by (simp add: ceiling_le_iff)
  ultimately show ?thesis using assms(1) by (simp add: int_of_float_def trunc_nonpos)
qed


lemma wrap64_id:
  assumes "- 9223372036854775808 \<le> n" "n < 9223372036854775808"
  shows "wrap64 n = n"
proof -
  have "(n + 9223372036854775808) mod 18446744073709551616 = n + 9223372036854775808"
    using assms by (intro mod_pos_pos_trivial) auto
  then show ?thesis by (simp add: wrap64_def)
qed

text \<open>
  Claim C10. The coercion \<open>toInt\<close> used for every token field truncates towards zero
  and does not round: a number between 0 and the 64-bit bound gives its floor, a negative
  one its ceiling, so 10.9 gives 10; a string is trimmed, read by \<open>ParseFloat\<close> and
  converted like a number, and gives 0 when it is empty or cannot be read; a boolean gives
  1 or 0; \<open>null\<close>, arrays and objects give 0. Hence an explicit total \<open>x\<close> is counted as
  its floor, and two fractional components as the sum of their floors.
\<close>

theorem toInt_truncates:
  "toInt L JNull = 0
   \<and> toInt L (JBool b) = (if b then 1 else 0)
   \<and> toInt L (JArr xs) = 0
   \<and> toInt L (JObj kvs) = 0
   \<and> (0 \<le> x \<and> x < 9223372036854775808 \<longrightarrow>
        real_of_int (toInt L (JNum x)) \<le> x \<and> x < real_of_int (toInt L (JNum x)) + 1)
   \<and> (x \<le> 0 \<and> - 9223372036854775808 \<le> x \<longrightarrow>
        x \<le> real_of_int (toInt L (JNum x)) \<and> real_of_int (toInt L (JNum x)) - 1 < x)
   \<and> toInt L (JNum 10.9) = 10
   \<and> (TrimSpace s \<noteq> [] \<and> strconv_ParseFloat L (TrimSpace s) = Some f \<longrightarrow>
        toInt L (JStr s) = toInt L (JNum f))
   \<and> (TrimSpace s = [] \<or> strconv_ParseFloat L (TrimSpace s) = None \<longrightarrow> toInt L (JStr s) = 0)
   \<and> (1 \<le> x \<and> x < 9223372036854775808 \<longrightarrow>
        extractTotalTokens L (zero_rawUsage \<lparr> TotalTokens := JNum x, InputTokens := JNum y \<rparr>) = \<lfloor>x\<rfloor>)
   \<and> (1 \<le> x \<and> x < 4611686018427387904 \<and> 1 \<le> y \<and> y < 4611686018427387904 \<longrightarrow>
        extractTotalTokens L (zero_rawUsage \<lparr> InputTokens := JNum x, OutputTokens := JNum y \<rparr>)
          = \<lfloor>x\<rfloor> + \<lfloor>y\<rfloor>)"
proof -
  have a: "0 \<le> x \<and> x < 9223372036854775808 \<longrightarrow>
        real_of_int (toInt L (JNum x)) \<le> x \<and> x < real_of_int (toInt L (JNum x)) + 1"
    by (auto simp: toInt_def int_of_float_nonneg)
  have b: "x \<le> 0 \<and> - 9223372036854775808 \<le> x \<longrightarrow>
        x \<le> real_of_int (toInt L (JNum x)) \<and> real_of_int (toInt L (JNum x)) - 1 < x"
    by (auto simp: toInt_def int_of_float_nonpos) linarith
  have c: "toInt L (JNum 10.9) = 10"
    by (simp add: toInt_def int_of_float_def trunc_def)
  have d: "1 \<le> x \<and> x < 9223372036854775808 \<longrightarrow>
        extractTotalTokens L (zero_rawUsage \<lparr> TotalTokens := JNum x, InputTokens := JNum y \<rparr>) = \<lfloor>x\<rfloor>"
  proof (intro impI, elim conjE)
    assume x: "1 \<le> x" "x < 9223372036854775808"
    then have "toInt L (JNum x) = \<lfloor>x\<rfloor>" by (simp add: toInt_def int_of_float_nonneg)
    moreover have "0 < \<lfloor>x\<rfloor>" using x(1) by linarith
    ultimately show "extractTotalTokens L (zero_rawUsage \<lparr> TotalTokens := JNum x, InputTokens := JNum y \<rparr>) = \<lfloor>x\<rfloor>"
      by (simp add: extractTotalTokens_def total_fields_def zero_rawUsage_def)
  qed
  have e: "1 \<le> x \<and> x < 4611686018427387904 \<and> 1 \<le> y \<and> y < 4611686018427387904 \<longrightarrow>
        extractTotalTokens L (zero_rawUsage \<lparr> InputTokens := JNum x, OutputTokens := JNum y \<rparr>)
          = \<lfloor>x\<rfloor> + \<lfloor>y\<rfloor>"
  proof (intro impI, elim conjE)
    assume x: "1 \<le> x" "x < 4611686018427387904" and y: "1 \<le> y" "y < 4611686018427387904"
    have tx: "toInt L (JNum x) = \<lfloor>x\<rfloor>" using x by (simp add: toInt_def int_of_float_nonneg)
    have ty: "toInt L (JNum y) = \<lfloor>y\<rfloor>" using y by (simp add: toInt_def int_of_float_nonneg)
    have px: "0 < \<lfloor>x\<rfloor>" "\<lfloor>x\<rfloor> < 4611686018427387904" using x by (linarith, simp add: floor_less_iff)
    have py: "0 < \<lfloor>y\<rfloor>" "\<lfloor>y\<rfloor> < 4611686018427387904" using y by (linarith, simp add: floor_less_iff)
    have w1: "wrap64 \<lfloor>x\<rfloor> = \<lfloor>x\<rfloor>" using px by (intro wrap64_id) linarith+
    have w2: "wrap64 (\<lfloor>x\<rfloor> + \<lfloor>y\<rfloor>) = \<lfloor>x\<rfloor> + \<lfloor>y\<rfloor>"
      using px py by (intro wrap64_id) linarith+
    show "extractTotalTokens L (zero_rawUsage \<lparr> InputTokens := JNum x, OutputTokens := JNum y \<rparr>)
          = \<lfloor>x\<rfloor> + \<lfloor>y\<rfloor>"
      using px py
      by (simp add: extractTotalTokens_def total_fields_def component_fields_def zero_rawUsage_def
            toInt_def[of L JNull] tx ty w1 w2)
  qed
  have f: "toInt L JNull = 0" "toInt L (JBool b) = (if b then 1 else 0)" "toInt L (JArr xs) = 0"
     "toInt L (JObj kvs) = 0"
    by (simp_all add: toInt_def)
  have g: "TrimSpace s \<noteq> [] \<and> strconv_ParseFloat L (TrimSpace s) = Some f \<longrightarrow>
        toInt L (JStr s) = toInt L (JNum f)"
    by (simp add: toInt_def)
  have h: "TrimSpace s = [] \<or> strconv_ParseFloat L (TrimSpace s) = None \<longrightarrow> toInt L (JStr s) = 0"
    by (auto simp: toInt_def Let_def)
  show ?thesis using a b c d e f g h by blast
qed

theorem toInt_truncates_witness:
  "(0 \<le> (10.9::real) \<and> (10.9::real) < 9223372036854775808)
   \<and> TrimSpace '' 10.9 '' \<noteq> [] \<and> strconv_ParseFloat test_lib (TrimSpace '' 10.9 '') = Some 10.9
   \<and> toInt test_lib (JStr '' 10.9 '') = 10
   \<and> toInt test_lib (JBool True) = 1
   \<and> extractTotalTokens test_lib (zero_rawUsage \<lparr> TotalTokens := JNum 10.9, InputTokens := JNum 5.9 \<rparr>) = 10
   \<and> extractTotalTokens test_lib (zero_rawUsage \<lparr> InputTokens := JNum 10.9, OutputTokens := JNum 5.9 \<rparr>) = 15"
proof -
  have p: "TrimSpace '' 10.9 '' = ''10.9''" by code_simp
  have q: "strconv_ParseFloat test_lib ''10.9'' = Some 10.9" by code_simp
  show ?thesis
    using toInt_truncates [of test_lib True "[]" "[]" "10.9" "'' 10.9 ''" "10.9" "5.9"] p q
    by simp
qed

section \<open>Properties of the token total\<close>

lemma first_positive_index:
  "i < length vs \<Longrightarrow> 0 < toInt L (vs ! i) \<Longrightarrow> (\<forall>j<i. toInt L (vs ! j) \<le> 0)
     \<Longrightarrow> first_positive L vs = Some (toInt L (vs ! i))"
proof (induction vs arbitrary: i)
  case Nil
  then show ?case by simp
next
  case (Cons v vs)
  show ?case
  proof (cases i)
    case 0
    with Cons.prems show ?thesis by simp
  next
    case (Suc k)
    have "toInt L v \<le> 0" using Cons.prems(3) Suc by auto
    moreover have "first_positive L vs = Some (toInt L (vs ! k))"
      using Cons.prems Suc by (intro Cons.IH) auto
    ultimately show ?thesis using Suc by simp
  qed
qed

lemma first_positive_none:
  "(\<forall>v \<in> set vs. toInt L v \<le> 0) \<Longrightarrow> first_positive L vs = None"
  by (induction vs) auto

lemma first_positive_pos: "first_positive L vs = Some n \<Longrightarrow> 0 < n"
  by (induction vs) (auto split: if_splits)

lemma sum_positive_exact:
  "0 \<le> acc \<Longrightarrow> acc + (\<Sum>v\<leftarrow>vs. max 0 (toInt L v)) < 9223372036854775808
     \<Longrightarrow> sum_positive L acc vs = acc + (\<Sum>v\<leftarrow>vs. max 0 (toInt L v))"
proof (induction vs arbitrary: acc)
  case Nil
  then show ?case by simp
next
  case (Cons v vs)
  have nn: "0 \<le> (\<Sum>v\<leftarrow>vs. max 0 (toInt L v))"
    by (rule sum_list_nonneg) auto
  show ?case
  proof (cases "0 < toInt L v")
    case True
    have "wrap64 (acc + toInt L v) = acc + toInt L v"
      using Cons.prems True nn by (intro wrap64_id) auto
    moreover have "sum_positive L (acc + toInt L v) vs
        = acc + toInt L v + (\<Sum>v\<leftarrow>vs. max 0 (toInt L v))"
      using Cons.prems True by (intro Cons.IH) auto
    ultimately show ?thesis using True by simp
  next
    case False
    moreover have "sum_positive L acc vs = acc + (\<Sum>v\<leftarrow>vs. max 0 (toInt L v))"
      using Cons.prems False by (intro Cons.IH) auto
    ultimately show ?thesis by simp
  qed
qed

lemma sum_max_zero:
  "(\<forall>v \<in> set vs. toInt L v \<le> 0) \<Longrightarrow> (\<Sum>v\<leftarrow>vs. max 0 (toInt L v)) = 0"
  by (induction vs) auto

lemma ParseLine_tokens:
  assumes "TrimSpace line \<noteq> []" "json_Unmarshal L (TrimSpace line) = Some j"
    "decode_rawRecord j = Some rec" "extractUsage rec = Some u"
  shows "if 0 < extractTotalTokens L u
         then \<exists>r. ParseLine L a line = Some r \<and> Tokens_of r = extractTotalTokens L u
         else ParseLine L a line = None"
  using assms by (simp add: ParseLine_def Let_def split: prod.splits)

text \<open>
  Claim C4, as the code has it. An explicit total is used when it coerces to a positive
  number: the first such one among \<open>totalTokens\<close>, \<open>total_tokens\<close>, \<open>total\<close>, \<open>tokens\<close>
  is the total, whatever the components are. When none does, the total is the sum of the
  components that coerce to a positive number (absent, non-numeric, zero and negative ones
  count as zero), as long as the sum fits in 64 bits. \<open>ParseLine\<close> stores that total when
  it is positive and returns no record otherwise, so a line whose totals and components
  are all zero or absent yields no record.
\<close>

theorem token_total_precedence:
  "(i < length (total_fields u) \<and> 0 < toInt L (total_fields u ! i)
      \<and> (\<forall>j<i. toInt L (total_fields u ! j) \<le> 0)
     \<longrightarrow> extractTotalTokens L u = toInt L (total_fields u ! i))
   \<and> ((\<forall>v \<in> set (total_fields u). toInt L v \<le> 0)
      \<and> (\<Sum>v\<leftarrow>component_fields u. max 0 (toInt L v)) < 9223372036854775808
     \<longrightarrow> extractTotalTokens L u = (\<Sum>v\<leftarrow>component_fields u. max 0 (toInt L v)))
   \<and> (TrimSpace line \<noteq> [] \<and> json_Unmarshal L (TrimSpace line) = Some j
      \<and> decode_rawRecord j = Some rec \<and> extractUsage rec = Some u
     \<longrightarrow> (if 0 < extractTotalTokens L u
          then \<exists>r. ParseLine L a line = Some r \<and> Tokens_of r = extractTotalTokens L u
          else ParseLine L a line = None))
   \<and> ((\<forall>v \<in> set (total_fields u) \<union> set (component_fields u). toInt L v \<le> 0)
     \<longrightarrow> extractTotalTokens L u = 0)"
proof (intro conjI impI)
  assume "i < length (total_fields u) \<and> 0 < toInt L (total_fields u ! i)
      \<and> (\<forall>j<i. toInt L (total_fields u ! j) \<le> 0)"
  then have "first_positive L (total_fields u) = Some (toInt L (total_fields u ! i))"
    by (intro first_positive_index) auto
  then show "extractTotalTokens L u = toInt L (total_fields u ! i)"
    by (simp add: extractTotalTokens_def)
next
  assume h: "(\<forall>v \<in> set (total_fields u). toInt L v \<le> 0)
      \<and> (\<Sum>v\<leftarrow>component_fields u. max 0 (toInt L v)) < 9223372036854775808"
  then have "first_positive L (total_fields u) = None"
    by (intro first_positive_none) auto
  moreover have "sum_positive L 0 (component_fields u)
      = 0 + (\<Sum>v\<leftarrow>component_fields u. max 0 (toInt L v))"
    using h by (intro sum_positive_exact) auto
  ultimately show "extractTotalTokens L u = (\<Sum>v\<leftarrow>component_fields u. max 0 (toInt L v))"
    by (simp add: extractTotalTokens_def)
next
  assume "TrimSpace line \<noteq> [] \<and> json_Unmarshal L (TrimSpace line) = Some j
      \<and> decode_rawRecord j = Some rec \<and> extractUsage rec = Some u"
  then show "if 0 < extractTotalTokens L u
          then \<exists>r. ParseLine L a line = Some r \<and> Tokens_of r = extractTotalTokens L u
          else ParseLine L a line = None"
    using ParseLine_tokens by blast
next
  assume h: "\<forall>v \<in> set (total_fields u) \<union> set (component_fields u). toInt L v \<le> 0"
  then have "first_positive L (total_fields u) = None"
    by (intro first_positive_none) auto
  moreover have "(\<Sum>v\<leftarrow>component_fields u. max 0 (toInt L v)) = 0"
    using h by (intro sum_max_zero) auto
  then have "sum_positive L 0 (component_fields u) = 0"
    using sum_positive_exact [of 0 L "component_fields u"] by simp
  ultimately show "extractTotalTokens L u = 0"
    by (simp add: extractTotalTokens_def)
qed


theorem token_total_precedence_witness:
  "(1 < length (total_fields (zero_rawUsage \<lparr> TotalTokens2 := JNum 7, InputTokens := JNum 5 \<rparr>))
      \<and> extractTotalTokens totals_lib (zero_rawUsage \<lparr> TotalTokens2 := JNum 7, InputTokens := JNum 5 \<rparr>) = 7)
   \<and> (TrimSpace negative_part_line \<noteq> []
      \<and> json_Unmarshal totals_lib (TrimSpace negative_part_line) = Some negative_part_doc
      \<and> extractUsage (the (decode_rawRecord negative_part_doc))
           = Some (zero_rawUsage \<lparr> InputTokens := JNum 10, OutputTokens := JNum (- 3) \<rparr>)
      \<and> extractTotalTokens totals_lib (zero_rawUsage \<lparr> InputTokens := JNum 10, OutputTokens := JNum (- 3) \<rparr>) = 10
      \<and> map_option Tokens_of (ParseLine totals_lib ''main'' negative_part_line) = Some 10)
   \<and> extractTotalTokens totals_lib zero_rawUsage = 0"
proof -
  let ?u1 = "zero_rawUsage \<lparr> TotalTokens2 := JNum 7, InputTokens := JNum 5 \<rparr>"
  let ?u2 = "zero_rawUsage \<lparr> InputTokens := JNum 10, OutputTokens := JNum (- 3) \<rparr>"
  have t: "toInt totals_lib JNull = 0" "toInt totals_lib (JNum 7) = 7" "toInt totals_lib (JNum 5) = 5"
    "toInt totals_lib (JNum 10) = 10" "toInt totals_lib (JNum (- 3)) = - 3"
    by (simp_all add: toInt_def int_of_float_def trunc_def)
  have tr: "TrimSpace negative_part_line = negative_part_line" by code_simp
  have ne: "negative_part_line \<noteq> []" by (simp add: negative_part_line_def)
  have un: "json_Unmarshal totals_lib negative_part_line = Some negative_part_doc" by code_simp
  have dr: "decode_rawRecord negative_part_doc
      = Some \<lparr> rr_Type = JNull, rr_Timestamp = JNull, rr_Message = None,
               rr_Usage = Some (JObj [(''input_tokens'', JNum 10), (''output_tokens'', JNum (- 3))]),
               rr_CostUsd = None, rr_Model = [], rr_ModelID = [], rr_ModelID2 = [] \<rparr>"
    by code_simp
  have eu: "extractUsage (the (decode_rawRecord negative_part_doc)) = Some ?u2"
    by code_simp
  have a: "extractTotalTokens totals_lib ?u1 = 7"
    using token_total_precedence [of 1 ?u1 totals_lib]
    by (simp add: total_fields_def zero_rawUsage_def t)
  have b: "extractTotalTokens totals_lib ?u2 = 10"
    using token_total_precedence [of 0 ?u2 totals_lib]
    by (simp add: total_fields_def component_fields_def zero_rawUsage_def t)
  have c: "map_option Tokens_of (ParseLine totals_lib ''main'' negative_part_line) = Some 10"
    using token_total_precedence [of 0 ?u2 totals_lib negative_part_line negative_part_doc
        "the (decode_rawRecord negative_part_doc)" "''main''"] tr ne un dr eu b
    by auto
  have d: "extractTotalTokens totals_lib zero_rawUsage = 0"
    using token_total_precedence [of 0 zero_rawUsage totals_lib]
    by (simp add: total_fields_def component_fields_def zero_rawUsage_def t)
  show ?thesis using a b c d tr ne un eu by (simp add: total_fields_def)
qed

text \<open>
  Claim C4 as stated fails where the explicit total does not coerce to a positive number:
  with \<open>total_tokens\<close> equal to 0 and \<open>input_tokens\<close> equal to 5 the record has 5 tokens,
  not the explicit total. A negative component is not added either: 10 and \<open>- 3\<close> give 10.
\<close>

theorem explicit_total_counterexample:
  "toInt totals_lib (TotalTokens2 (the (extractUsage (the (decode_rawRecord zero_total_doc))))) = 0
   \<and> ParseLine totals_lib ''main'' zero_total_line
       = Some \<lparr> AgentName = ''main'', Model = ''unknown'', DateKey = ''unknown'', Tokens_of = 5,
                Cost_of = 0, Hour = None, DOW = None \<rparr>
   \<and> (\<Sum>v\<leftarrow>component_fields (the (extractUsage (the (decode_rawRecord negative_part_doc)))).
         toInt totals_lib v) = 7
   \<and> ParseLine totals_lib ''main'' negative_part_line
       = Some \<lparr> AgentName = ''main'', Model = ''unknown'', DateKey = ''unknown'', Tokens_of = 10,
                Cost_of = 0, Hour = None, DOW = None \<rparr>"
  by code_simp

section \<open>Properties of the time stamp\<close>

lemma clock_Hour_range: "0 \<le> clock_Hour s \<and> clock_Hour s \<le> 23"
proof -
  have "0 \<le> s mod 86400" "s mod 86400 \<le> 86399"
    using pos_mod_bound [of 86400 s] by simp_all
  then have "0 \<le> (s mod 86400) div 3600" "(s mod 86400) div 3600 \<le> 86399 div 3600"
    by (simp add: pos_imp_zdiv_nonneg_iff, intro zdiv_mono1) simp_all
  then show ?thesis by (simp add: clock_Hour_def)
qed

lemma ParseLine_hour_dow:
  assumes "ParseLine L a line = Some r"
  shows "\<exists>j rec. json_Unmarshal L (TrimSpace line) = Some j \<and> decode_rawRecord j = Some rec
           \<and> (Hour r, DOW r) = parseTimestampToHourDOW L (extractTimestamp rec)"
  using assms
  by (auto simp: ParseLine_def Let_def split: if_splits option.splits prod.splits)

text \<open>
  Claim C7. Every record that \<open>ParseLine\<close> returns has the hour and the day of the week
  both present or both absent; a present hour is between 0 and 23, a present day of the
  week between 0 and 6. The day is the weekday of the local wall clock of the time stamp,
  renumbered from Go's (Sunday 0, Monday 1, ..., Saturday 6) so that Monday is 0 and
  Sunday is 6.
\<close>

theorem hour_dow_invariant:
  assumes "ParseLine L a line = Some r"
  shows "(Hour r = None \<longleftrightarrow> DOW r = None)
    \<and> (\<forall>h. Hour r = Some h \<longrightarrow> 0 \<le> h \<and> h \<le> 23)
    \<and> (\<forall>d. DOW r = Some d \<longrightarrow> 0 \<le> d \<and> d \<le> 6)
    \<and> (\<exists>j rec. json_Unmarshal L (TrimSpace line) = Some j \<and> decode_rawRecord j = Some rec
          \<and> (let t = parseTimestampToTime L (extractTimestamp rec);
                  wd = clock_Weekday (local_secs L t)
              in if IsZero t then Hour r = None \<and> DOW r = None
                 else Hour r = Some (clock_Hour (local_secs L t))
                      \<and> DOW r = Some (if wd = 0 then 6 else wd - 1)))"
proof -
  obtain j rec where jr: "json_Unmarshal L (TrimSpace line) = Some j" "decode_rawRecord j = Some rec"
    and hd: "(Hour r, DOW r) = parseTimestampToHourDOW L (extractTimestamp rec)"
    using ParseLine_hour_dow [OF assms] by blast
  define t where "t = parseTimestampToTime L (extractTimestamp rec)"
  define wd where "wd = clock_Weekday (local_secs L t)"
  have wdr: "0 \<le> wd" "wd < 7" by (simp_all add: wd_def clock_Weekday_def)
  have conv: "(wd + 6) mod 7 = (if wd = 0 then 6 else wd - 1)"
    using wdr by (auto simp: mod_pos_pos_trivial) presburger
  show ?thesis
  proof (cases "IsZero t")
    case True
    then have "Hour r = None" "DOW r = None"
      using hd by (simp_all add: parseTimestampToHourDOW_def t_def)
    then show ?thesis using jr True by (auto simp: t_def Let_def)
  next
    case False
    then have h: "Hour r = Some (clock_Hour (local_secs L t))"
      and d: "DOW r = Some (if wd = 0 then 6 else wd - 1)"
      using hd conv by (simp_all add: parseTimestampToHourDOW_def t_def Let_def wd_def)
    have "0 \<le> (if wd = 0 then 6 else wd - 1) \<and> (if wd = 0 then 6 else wd - 1) \<le> 6"
      using wdr by auto
    then show ?thesis
      using h d jr False clock_Hour_range [of "local_secs L t"]
      by (auto simp: t_def wd_def Let_def)
  qed
qed

theorem hour_dow_invariant_witness:
  "ParseLine test_lib ''alpha'' (test_line 1 20)
     = Some \<lparr> AgentName = ''alpha'', Model = ''test-model'', DateKey = ''2026-02-17'',
              Tokens_of = 20, Cost_of = 0, Hour = Some 0, DOW = Some 1 \<rparr>
   \<and> json_Unmarshal test_lib (TrimSpace (test_line 1 20)) = Some (test_doc 1 20)
   \<and> clock_Hour (local_secs test_lib
         (parseTimestampToTime test_lib (extractTimestamp (the (decode_rawRecord (test_doc 1 20)))))) = 0
   \<and> clock_Weekday (local_secs test_lib
         (parseTimestampToTime test_lib (extractTimestamp (the (decode_rawRecord (test_doc 1 20)))))) = 2"
proof -
  have p: "ParseLine test_lib ''alpha'' (test_line 1 20)
     = Some \<lparr> AgentName = ''alpha'', Model = ''test-model'', DateKey = ''2026-02-17'',
              Tokens_of = 20, Cost_of = 0, Hour = Some 0, DOW = Some 1 \<rparr>"
    by code_simp
  have q: "json_Unmarshal test_lib (TrimSpace (test_line 1 20)) = Some (test_doc 1 20)"
    by code_simp
  have w: "clock_Weekday (local_secs test_lib
         (parseTimestampToTime test_lib (extractTimestamp (the (decode_rawRecord (test_doc 1 20)))))) = 2"
    by code_simp
  have z: "\<not> IsZero (parseTimestampToTime test_lib (extractTimestamp (the (decode_rawRecord (test_doc 1 20)))))"
    by code_simp
  from hour_dow_invariant [OF p] q z w show ?thesis
    using p by (auto simp: Let_def)
qed


section \<open>Properties of the sync pass\<close>

lemma find_map_offset:
  "find (\<lambda>r. file_path r = q) (map (\<lambda>r. if file_path r = p then r \<lparr> last_offset := v \<rparr> else r) rows)
     = map_option (\<lambda>r. if file_path r = p then r \<lparr> last_offset := v \<rparr> else r)
         (find (\<lambda>r. file_path r = q) rows)"
  by (induction rows) auto

lemma stored_offset_set_offset:
  "stored_offset (set_offset db p v) q
     = (if q = p then map_option (\<lambda>_. v) (stored_offset db p) else stored_offset db q)"
  by (cases "find (\<lambda>r. file_path r = q) (file_state db)")
     (auto simp: stored_offset_def set_offset_def find_map_offset dest: find_Some_iff [THEN iffD1])

lemma find_snoc:
  "find P (xs @ [x]) = (case find P xs of Some y \<Rightarrow> Some y | None \<Rightarrow> if P x then Some x else None)"
  by (induction xs) auto

lemma stored_offset_add_file_state:
  "stored_offset (add_file_state db sf v) q
     = (case stored_offset db q of
          Some off \<Rightarrow> Some off
        | None \<Rightarrow> if q = sf_Path sf then Some v else None)"
  by (auto simp: stored_offset_def add_file_state_def find_snoc split: option.splits)

lemma stored_offset_delete [simp]:
  "stored_offset (delete_file_records db p) q = stored_offset db q"
  by (simp add: stored_offset_def delete_file_records_def)

lemma insert_record_file_state:
  "insert_record db rec p off = Inr db' \<Longrightarrow> file_state db' = file_state db"
  by (auto simp: insert_record_def split: if_splits)

lemma scan_loop_result:
  "scan_loop L sf ps no bc db = Inr (no', bc', db')
     \<Longrightarrow> file_state db' = file_state db \<and> no' = no + advance ps"
proof (induction ps arbitrary: no bc db)
  case Nil
  then show ?case by (simp add: advance_def)
next
  case (Cons p ps)
  from Cons.prems have short: "\<not> int (length p) \<ge> maxTokenSize"
    by (auto split: if_splits)
  show ?case
  proof (cases "ParseLine L (sf_AgentName sf) (dropCR p)")
    case None
    with Cons.prems short
    have "scan_loop L sf ps (no + int (length (dropCR p)) + 1) bc db = Inr (no', bc', db')"
      by (simp add: Let_def)
    from Cons.IH [OF this] show ?thesis by (simp add: advance_def)
  next
    case (Some rec)
    with Cons.prems short obtain db1 where
      ins: "insert_record db rec (sf_Path sf) no = Inr db1"
      and rest: "scan_loop L sf ps (no + int (length (dropCR p)) + 1) (bc + 1) db1 = Inr (no', bc', db')"
      by (auto simp: Let_def split: sum.splits)
    from Cons.IH [OF rest] insert_record_file_state [OF ins]
    show ?thesis by (simp add: advance_def)
  qed
qed

lemma advance_nonneg: "0 \<le> advance ps"
  unfolding advance_def by (rule sum_list_nonneg) auto

lemma scan_loop_succeeds:
  assumes "\<forall>p \<in> set ps. int (length p) < maxTokenSize"
    "\<forall>r \<in> set (usage_records db). source_file r = sf_Path sf \<longrightarrow> source_offset r < no"
  shows "\<exists>no' bc' db'. scan_loop L sf ps no bc db = Inr (no', bc', db')"
  using assms
proof (induction ps arbitrary: no bc db)
  case Nil
  then show ?case by simp
next
  case (Cons p ps)
  have short: "\<not> int (length p) \<ge> maxTokenSize" using Cons.prems(1) by auto
  have rest: "\<forall>p \<in> set ps. int (length p) < maxTokenSize" using Cons.prems(1) by auto
  let ?no = "no + int (length (dropCR p)) + 1"
  show ?case
  proof (cases "ParseLine L (sf_AgentName sf) (dropCR p)")
    case None
    have "\<forall>r \<in> set (usage_records db). source_file r = sf_Path sf \<longrightarrow> source_offset r < ?no"
      using Cons.prems(2) by fastforce
    from Cons.IH [OF rest this] show ?thesis using None short by (simp add: Let_def)
  next
    case (Some rec)
    have nodup: "\<not> (\<exists>r \<in> set (usage_records db). source_file r = sf_Path sf \<and> source_offset r = no)"
      using Cons.prems(2) by fastforce
    then obtain db1 where ins: "insert_record db rec (sf_Path sf) no = Inr db1"
      by (simp add: insert_record_def)
    then have "\<forall>r \<in> set (usage_records db1).
        r \<in> set (usage_records db) \<or> (source_file r = sf_Path sf \<and> source_offset r = no)"
      using nodup by (auto simp: insert_record_def)
    then have rows: "\<forall>r \<in> set (usage_records db1). source_file r = sf_Path sf \<longrightarrow> source_offset r < ?no"
      using Cons.prems(2) by fastforce
    from Cons.IH [OF rest rows] show ?thesis using Some short ins by (simp add: Let_def)
  qed
qed

lemma stored_offset_file_state:
  "file_state db' = file_state db \<Longrightarrow> stored_offset db' q = stored_offset db q"
  by (simp add: stored_offset_def)

lemma set_offset_twice:
  "file_state db2 = file_state (set_offset db1 p v) \<Longrightarrow>
     file_state (set_offset db2 p w) = file_state (set_offset db1 p w)"
  by (simp add: set_offset_def)

lemma file_state_delete [simp]:
  "file_state (delete_file_records db p) = file_state db"
  by (simp add: delete_file_records_def)

lemma set_offset_cong:
  "file_state db2 = file_state db1 \<Longrightarrow> file_state (set_offset db2 p w) = file_state (set_offset db1 p w)"
  by (simp add: set_offset_def)

lemma add_file_state_cong:
  "file_state db2 = file_state db1 \<Longrightarrow>
     file_state (add_file_state db2 sf w) = file_state (add_file_state db1 sf w)"
  by (simp add: add_file_state_def)

text \<open>The table \<open>file_state\<close> after one file's step, case by case.\<close>

lemma syncOneFile_file_state:
  assumes "syncOneFile L fs db sf = Inr (synced, n, db')"
  shows "\<exists>content. fs (sf_Path sf) = Some content \<and>
     (case stored_offset db (sf_Path sf) of
        None \<Rightarrow>
          (if content = [] then \<not> synced \<and> db' = db
           else synced \<and> file_state db'
                  = file_state (add_file_state db sf (advance (raw_lines content))))
      | Some off \<Rightarrow>
          (if int (length content) < off
           then (if content = [] then \<not> synced else synced)
                \<and> file_state db'
                   = file_state (set_offset db (sf_Path sf) (advance (raw_lines content)))
           else if int (length content) \<le> off then \<not> synced \<and> db' = db
           else synced \<and> file_state db'
                  = file_state (set_offset db (sf_Path sf)
                      (off + advance (raw_lines (drop (nat off) content))))))"
proof -
  let ?p = "sf_Path sf"
  obtain content where c: "fs ?p = Some content"
    using assms by (auto simp: syncOneFile_def Let_def split: option.splits)
  show ?thesis
  proof (cases "stored_offset db ?p")
    case None
    show ?thesis
    proof (cases "content = []")
      case True
      then show ?thesis using assms c None by (simp add: syncOneFile_def Let_def)
    next
      case False
      then obtain no bc db2 where
        sc: "scan_loop L sf (raw_lines content) 0 0 db = Inr (no, bc, db2)"
        and d: "db' = add_file_state db2 sf no" and s: "synced"
        using assms c None by (auto simp: syncOneFile_def Let_def split: sum.splits)
      from scan_loop_result [OF sc] have "file_state db2 = file_state db" "no = advance (raw_lines content)"
        by simp_all
      then show ?thesis using c None False d s add_file_state_cong [of db2 db] by simp
    qed
  next
    case (Some off)
    show ?thesis
    proof (cases "int (length content) < off")
      case trunc: True
      let ?db1 = "set_offset (delete_file_records db ?p) ?p 0"
      have fs1: "file_state ?db1 = file_state (set_offset db ?p 0)"
        by (simp add: set_offset_def)
      show ?thesis
      proof (cases "content = []")
        case True
        then have "db' = ?db1" "\<not> synced" using assms c Some trunc
          by (simp_all add: syncOneFile_def Let_def)
        then show ?thesis using True c Some trunc fs1
          by (simp add: raw_lines_def advance_def)
      next
        case False
        then obtain no bc db2 where
          sc: "scan_loop L sf (raw_lines content) 0 0 ?db1 = Inr (no, bc, db2)"
          and d: "db' = set_offset db2 ?p no" and s: "synced"
          using assms c Some trunc
          by (auto simp: syncOneFile_def Let_def split: sum.splits)
        from scan_loop_result [OF sc] have "file_state db2 = file_state (set_offset db ?p 0)"
          and no: "no = advance (raw_lines content)"
          using fs1 by simp_all
        from set_offset_twice [OF this(1)] show ?thesis
          using c Some trunc False d s no by simp
      qed
    next
      case notrunc: False
      show ?thesis
      proof (cases "int (length content) \<le> off")
        case True
        then show ?thesis using assms c Some notrunc
          by (simp add: syncOneFile_def Let_def)
      next
        case False
        then obtain no bc db2 where
          sc: "scan_loop L sf (raw_lines (drop (nat off) content)) off 0 db = Inr (no, bc, db2)"
          and d: "db' = set_offset db2 ?p no" and s: "synced"
          using assms c Some notrunc
          by (auto simp: syncOneFile_def Let_def split: sum.splits)
        from scan_loop_result [OF sc] have fsd: "file_state db2 = file_state db"
          and no: "no = off + advance (raw_lines (drop (nat off) content))"
          by simp_all
        from set_offset_cong [OF fsd] show ?thesis
          using c Some notrunc False d s no by simp
      qed
    qed
  qed
qed

text \<open>What one file's step does to the stored offset of any tracked path.\<close>

lemma syncOneFile_offset:
  assumes "syncOneFile L fs db sf = Inr (synced, n, db')" "stored_offset db q = Some off"
  shows "\<exists>off'. stored_offset db' q = Some off'
           \<and> (q \<noteq> sf_Path sf \<longrightarrow> off' = off)
           \<and> (q = sf_Path sf \<longrightarrow>
                (\<exists>content. fs q = Some content
                   \<and> (if int (length content) < off then off' = advance (raw_lines content)
                       else off \<le> off')))"
proof -
  obtain content where c: "fs (sf_Path sf) = Some content" and
    k: "(case stored_offset db (sf_Path sf) of
        None \<Rightarrow>
          (if content = [] then \<not> synced \<and> db' = db
           else synced \<and> file_state db'
                  = file_state (add_file_state db sf (advance (raw_lines content))))
      | Some off \<Rightarrow>
          (if int (length content) < off
           then (if content = [] then \<not> synced else synced)
                \<and> file_state db'
                   = file_state (set_offset db (sf_Path sf) (advance (raw_lines content)))
           else if int (length content) \<le> off then \<not> synced \<and> db' = db
           else synced \<and> file_state db'
                  = file_state (set_offset db (sf_Path sf)
                      (off + advance (raw_lines (drop (nat off) content))))))"
    using syncOneFile_file_state [OF assms(1)] by blast
  show ?thesis
    using k c assms(2) advance_nonneg [of "raw_lines (drop (nat off) content)"]
    by (auto simp: stored_offset_set_offset stored_offset_add_file_state
          split: option.splits if_splits
          dest!: stored_offset_file_state [where q = q])
qed

lemma syncOneFile_unchanged:
  assumes "fs (sf_Path sf) = Some content"
    "int (length content) = (case stored_offset db (sf_Path sf) of None \<Rightarrow> 0 | Some off \<Rightarrow> off)"
  shows "syncOneFile L fs db sf = Inr (False, 0, db)"
  using assms by (auto simp: syncOneFile_def Let_def split: option.splits)

lemma sync_files_unchanged:
  assumes "\<forall>sf \<in> set files. \<exists>content. fs (sf_Path sf) = Some content
      \<and> int (length content) = (case stored_offset db (sf_Path sf) of None \<Rightarrow> 0 | Some off \<Rightarrow> off)"
  shows "sync_files L fs files db res
      = (db, res \<lparr> SkippedFiles := SkippedFiles res + int (length files) \<rparr>)"
  using assms
proof (induction files arbitrary: res)
  case Nil
  then show ?case by simp
next
  case (Cons sf files)
  then obtain content where "fs (sf_Path sf) = Some content"
    "int (length content) = (case stored_offset db (sf_Path sf) of None \<Rightarrow> 0 | Some off \<Rightarrow> off)"
    by auto
  then have "syncOneFile L fs db sf = Inr (False, 0, db)"
    by (rule syncOneFile_unchanged)
  moreover have "sync_files L fs files db (res \<lparr> SkippedFiles := SkippedFiles res + 1 \<rparr>)
      = (db, (res \<lparr> SkippedFiles := SkippedFiles res + 1 \<rparr>)
               \<lparr> SkippedFiles := SkippedFiles (res \<lparr> SkippedFiles := SkippedFiles res + 1 \<rparr>)
                     + int (length files) \<rparr>)"
    using Cons.prems by (intro Cons.IH) auto
  ultimately show ?case by (simp add: add.assoc add.commute)
qed

text \<open>
  Claim C3, as the code has it. When the current size of every session file equals its
  stored last offset (zero for a file not seen before), a sync pass inserts no record,
  counts every file as skipped and leaves the whole cache as it was, so that every
  aggregate computed from it is unchanged.
\<close>

theorem sync_idempotent:
  assumes "\<forall>sf \<in> set files. \<exists>content. fs (sf_Path sf) = Some content
      \<and> int (length content) = (case stored_offset db (sf_Path sf) of None \<Rightarrow> 0 | Some off \<Rightarrow> off)"
  shows "Sync L fs files db
           = (db, \<lparr> NewRecords = 0, SyncedFiles = 0, SkippedFiles = int (length files) \<rparr>)
         \<and> aggregate L wh dir res (fst (Sync L fs files db)) = aggregate L wh dir res db"
  using sync_files_unchanged [OF assms] by (simp add: Sync_def)

lemma scan_loop_too_long:
  assumes "\<not> list_all (\<lambda>l. int (length l) < maxTokenSize) ps"
  shows "\<exists>e. scan_loop L sf ps no bc db = Inl e"
  using assms
proof (induction ps arbitrary: no bc db)
  case Nil
  then show ?case by simp
next
  case (Cons p ps)
  show ?case
  proof (cases "int (length p) \<ge> maxTokenSize")
    case True
    then show ?thesis by simp
  next
    case False
    then have rest: "\<not> list_all (\<lambda>l. int (length l) < maxTokenSize) ps"
      using Cons.prems by simp
    show ?thesis
    proof (cases "ParseLine L (sf_AgentName sf) (dropCR p)")
      case None
      then show ?thesis using False Cons.IH [OF rest] by (simp add: Let_def)
    next
      case (Some rec)
      show ?thesis
      proof (cases "insert_record db rec (sf_Path sf) no")
        case (Inl e)
        then show ?thesis using False Some by (simp add: Let_def)
      next
        case (Inr db1)
        then show ?thesis using False Some Cons.IH [OF rest] by (simp add: Let_def)
      qed
    qed
  qed
qed

text \<open>
  The step of a truncated file fails only on a line that does not fit the buffer: its
  rows are deleted before the scan, so no insert meets a row of the same file.
\<close>

lemma syncOneFile_truncated:
  assumes "stored_offset db (sf_Path sf) = Some off" "fs (sf_Path sf) = Some content"
    "int (length content) < off"
  shows "(\<exists>synced n db'. syncOneFile L fs db sf = Inr (synced, n, db'))
       \<longleftrightarrow> list_all (\<lambda>l. int (length l) < maxTokenSize) (raw_lines content)"
proof (cases "content = []")
  case True
  then have "syncOneFile L fs db sf
      = Inr (False, 0, set_offset (delete_file_records db (sf_Path sf)) (sf_Path sf) 0)"
    using assms by (simp add: syncOneFile_def Let_def)
  then show ?thesis using True by (auto simp: raw_lines_def)
next
  case False
  let ?p = "sf_Path sf"
  let ?db1 = "set_offset (delete_file_records db ?p) ?p 0"
  have step: "syncOneFile L fs db sf
      = (case scan_loop L sf (raw_lines content) 0 0 ?db1 of
           Inl e \<Rightarrow> Inl e
         | Inr (newOffset, batchCount, db2) \<Rightarrow>
             Inr (True, batchCount, set_offset db2 ?p newOffset))"
    using assms False by (simp add: syncOneFile_def Let_def split: sum.splits)
  show ?thesis
  proof (cases "list_all (\<lambda>l. int (length l) < maxTokenSize) (raw_lines content)")
    case True
    then have fit: "\<forall>l \<in> set (raw_lines content). int (length l) < maxTokenSize"
      by (simp add: list_all_iff)
    have norows: "\<forall>r \<in> set (usage_records ?db1). source_file r = ?p \<longrightarrow> source_offset r < 0"
      by (simp add: set_offset_def delete_file_records_def)
    obtain no n db2 where "scan_loop L sf (raw_lines content) 0 0 ?db1 = Inr (no, n, db2)"
      using scan_loop_succeeds [OF fit norows] by blast
    then show ?thesis using step True by auto
  next
    case False
    then obtain e where "scan_loop L sf (raw_lines content) 0 0 ?db1 = Inl e"
      using scan_loop_too_long by blast
    then show ?thesis using step False by auto
  qed
qed

lemma sync_files_offset:
  assumes "distinct (map sf_Path files)" "sync_files L fs files db res = (db', res')"
    "stored_offset db p = Some off"
  shows "\<exists>off'. stored_offset db' p = Some off'
      \<and> (p \<notin> sf_Path ` set files \<longrightarrow> off' = off)
      \<and> (p \<in> sf_Path ` set files \<longrightarrow>
           (case fs p of
              None \<Rightarrow> off' = off
            | Some content \<Rightarrow>
                (if int (length content) < off
                 then off' = (if list_all (\<lambda>l. int (length l) < maxTokenSize) (raw_lines content)
                              then advance (raw_lines content) else off)
                 else off \<le> off')))"
  using assms
proof (induction files arbitrary: db res off)
  case Nil
  then show ?case by simp
next
  case (Cons sf files)
  have dist: "distinct (map sf_Path files)" and notin: "sf_Path sf \<notin> sf_Path ` set files"
    using Cons.prems(1) by auto
  show ?case
  proof (cases "syncOneFile L fs db sf")
    case (Inl e)
    then have rest: "sync_files L fs files db (res \<lparr> SkippedFiles := SkippedFiles res + 1 \<rparr>) = (db', res')"
      using Cons.prems(2) by simp
    from Cons.IH [OF dist rest Cons.prems(3)] obtain off' where
      o: "stored_offset db' p = Some off'" "p \<notin> sf_Path ` set files \<longrightarrow> off' = off"
        "p \<in> sf_Path ` set files \<longrightarrow>
           (case fs p of None \<Rightarrow> off' = off
            | Some content \<Rightarrow> (if int (length content) < off
                 then off' = (if list_all (\<lambda>l. int (length l) < maxTokenSize) (raw_lines content)
                              then advance (raw_lines content) else off)
                 else off \<le> off'))"
      by blast
    show ?thesis
    proof (cases "p = sf_Path sf")
      case True
      then have same: "off' = off" using o(2) notin by simp
      have "\<not> list_all (\<lambda>l. int (length l) < maxTokenSize) (raw_lines content)"
        if "fs p = Some content" "int (length content) < off" for content
        using syncOneFile_truncated [of db sf off fs content L] that True Cons.prems(3) Inl
        by auto
      then show ?thesis using o(1) same by (auto split: option.splits)
    next
      case False
      then have "p \<in> sf_Path ` set (sf # files) \<longleftrightarrow> p \<in> sf_Path ` set files"
        by auto
      then show ?thesis using o by (cases "fs p") (auto split: if_splits)
    qed
  next
    case (Inr t)
    then obtain synced n db1 where s1: "syncOneFile L fs db sf = Inr (synced, n, db1)"
      by (cases t) auto
    then obtain res1 where rest: "sync_files L fs files db1 res1 = (db', res')"
      using Cons.prems(2) by (auto split: if_splits)
    from syncOneFile_offset [OF s1 Cons.prems(3)] obtain off1 where
      o1: "stored_offset db1 p = Some off1" "p \<noteq> sf_Path sf \<longrightarrow> off1 = off"
        "p = sf_Path sf \<longrightarrow> (\<exists>content. fs p = Some content
                   \<and> (if int (length content) < off then off1 = advance (raw_lines content)
                       else off \<le> off1))"
      by blast
    from Cons.IH [OF dist rest o1(1)] obtain off' where
      o: "stored_offset db' p = Some off'" "p \<notin> sf_Path ` set files \<longrightarrow> off' = off1"
        "p \<in> sf_Path ` set files \<longrightarrow>
           (case fs p of None \<Rightarrow> off' = off1
            | Some content \<Rightarrow> (if int (length content) < off1
                 then off' = (if list_all (\<lambda>l. int (length l) < maxTokenSize) (raw_lines content)
                              then advance (raw_lines content) else off1)
                 else off1 \<le> off'))"
      by blast
    show ?thesis
    proof (cases "p = sf_Path sf")
      case True
      then have same: "off' = off1" using o(2) notin by simp
      have "list_all (\<lambda>l. int (length l) < maxTokenSize) (raw_lines content)"
        if "fs p = Some content" "int (length content) < off" for content
        using syncOneFile_truncated [of db sf off fs content L] that True Cons.prems(3) s1
        by auto
      then show ?thesis using o(1) o1(3) True same by (auto split: option.splits)
    next
      case False
      then have "off1 = off" using o1(2) by simp
      moreover have "p \<in> sf_Path ` set (sf # files) \<longleftrightarrow> p \<in> sf_Path ` set files"
        using False by auto
      ultimately show ?thesis using o by (cases "fs p") (auto split: if_splits)
    qed
  qed
qed

text \<open>
  Claim C6. Over a sync pass on distinct session files, the last offset stored for a
  tracked file does not decrease, except when the file is found truncated in that pass
  (its size is smaller than the stored offset). Then the file's step resets the offset
  to zero and scans the whole file again: when every line fits the scanner's buffer, the
  offset stored at the end of the pass is what a scan of the whole file from offset zero
  advances by; when some line does not fit, the step fails, its changes are rolled back
  and the offset is the one before the pass. The offset of a file that is not among the
  session files, or cannot be read, is unchanged.
\<close>

theorem offset_monotone:
  assumes "distinct (map sf_Path files)" "Sync L fs files db = (db', res)"
    "stored_offset db p = Some off"
  shows "\<exists>off'. stored_offset db' p = Some off'
      \<and> (p \<notin> sf_Path ` set files \<longrightarrow> off' = off)
      \<and> (p \<in> sf_Path ` set files \<longrightarrow>
           (case fs p of
              None \<Rightarrow> off' = off
            | Some content \<Rightarrow>
                (if int (length content) < off
                 then off' = (if list_all (\<lambda>l. int (length l) < maxTokenSize) (raw_lines content)
                              then advance (raw_lines content) else off)
                 else off \<le> off')))"
  using sync_files_offset [OF assms(1) assms(2) [unfolded Sync_def] assms(3)] .

section \<open>The truncation test\<close>

lemma pass1_value:
  "pass1 = (cache_after_first, \<lparr> NewRecords = 3, SyncedFiles = 2, SkippedFiles = 0 \<rparr>)"
  by code_simp

lemma pass2_value:
  "pass2 = (cache_after_rewrite, \<lparr> NewRecords = 1, SyncedFiles = 1, SkippedFiles = 1 \<rparr>)"
  unfolding pass2_def pass1_value fst_conv by code_simp

lemma pass3_value:
  "pass3 = (cache_after_rewrite, \<lparr> NewRecords = 0, SyncedFiles = 0, SkippedFiles = 2 \<rparr>)"
  unfolding pass3_def pass2_value fst_conv by code_simp

text \<open>
  Claim C1. The scenario of the test in \<open>db_test.go\<close>. File A holds two lines of 10 and
  20 tokens and file B one line of 5 tokens: the first pass over an empty cache leaves
  three records with 35 tokens. File A is then rewritten to a single line of 7 tokens,
  shorter than its stored offset: the second pass leaves two records with 12 tokens,
  exactly one of them attributed to file A. A third pass with no further change inserts
  no record and leaves the cache as it was.
\<close>

theorem truncation_scenario:
  "length (usage_records (fst pass1)) = 3
   \<and> sum_list (map tokens (usage_records (fst pass1))) = 35
   \<and> length (usage_records (fst pass2)) = 2
   \<and> sum_list (map tokens (usage_records (fst pass2))) = 12
   \<and> length (filter (\<lambda>r. source_file r = sf_Path fileA) (usage_records (fst pass2))) = 1
   \<and> NewRecords (snd pass3) = 0
   \<and> fst pass3 = fst pass2"
  by (simp add: pass1_value pass2_value pass3_value cache_after_first_def cache_after_rewrite_def
        fileA_def)

lemma test_sizes:
  "fs_rewritten (sf_Path fileA) = Some (writeSessionTokens [7])"
  "fs_rewritten (sf_Path fileB) = Some (writeSessionTokens [5])"
  "length (writeSessionTokens [7]) = 103"
  "length (writeSessionTokens [5]) = 103"
  "sf_Path fileA \<noteq> sf_Path fileB"
  by code_simp+

lemma test_offsets:
  "stored_offset cache_after_first (sf_Path fileA) = Some 208"
  "stored_offset cache_after_first (sf_Path fileB) = Some 103"
  "stored_offset cache_after_rewrite (sf_Path fileA) = Some 103"
  "stored_offset cache_after_rewrite (sf_Path fileB) = Some 103"
  by code_simp+

theorem sync_idempotent_witness:
  "fs_rewritten (sf_Path fileA) = Some (writeSessionTokens [7])
   \<and> length (writeSessionTokens [7]) = 103
   \<and> stored_offset (fst pass2) (sf_Path fileA) = Some 103
   \<and> fs_rewritten (sf_Path fileB) = Some (writeSessionTokens [5])
   \<and> length (writeSessionTokens [5]) = 103
   \<and> stored_offset (fst pass2) (sf_Path fileB) = Some 103
   \<and> Sync test_lib fs_rewritten [fileA, fileB] (fst pass2)
       = (fst pass2, \<lparr> NewRecords = 0, SyncedFiles = 0, SkippedFiles = 2 \<rparr>)"
proof -
  have h: "\<forall>sf \<in> set [fileA, fileB]. \<exists>content. fs_rewritten (sf_Path sf) = Some content
      \<and> int (length content)
          = (case stored_offset (fst pass2) (sf_Path sf) of None \<Rightarrow> 0 | Some off \<Rightarrow> off)"
    by (simp add: pass2_value test_sizes test_offsets)
  from sync_idempotent [OF h, of test_lib] show ?thesis
    by (simp add: pass2_value test_sizes test_offsets)
qed

text \<open>
  Claim C3 as stated fails on a truncated file. After the first pass of the test, file A
  is rewritten to a shorter content: no file's size exceeds its stored offset (103 against
  208 for file A, 103 against 103 for file B), yet the next pass reports one new record
  and the table is not the one before.
\<close>

theorem sync_idempotent_counterexample:
  "stored_offset (fst pass1) (sf_Path fileA) = Some 208
   \<and> map_option (\<lambda>c. int (length c)) (fs_rewritten (sf_Path fileA)) = Some 103
   \<and> stored_offset (fst pass1) (sf_Path fileB) = Some 103
   \<and> map_option (\<lambda>c. int (length c)) (fs_rewritten (sf_Path fileB)) = Some 103
   \<and> NewRecords (snd (Sync test_lib fs_rewritten [fileA, fileB] (fst pass1))) = 1
   \<and> usage_records (fst (Sync test_lib fs_rewritten [fileA, fileB] (fst pass1)))
       \<noteq> usage_records (fst pass1)"
proof -
  have "Sync test_lib fs_rewritten [fileA, fileB] (fst pass1) = pass2"
    by (simp add: pass2_def)
  moreover have "usage_records cache_after_rewrite \<noteq> usage_records cache_after_first"
    by (simp add: cache_after_first_def cache_after_rewrite_def)
  ultimately show ?thesis
    by (simp add: pass1_value pass2_value test_sizes test_offsets)
qed

theorem offset_monotone_witness:
  "distinct (map sf_Path [fileA, fileB])
   \<and> Sync test_lib fs_rewritten [fileA, fileB] cache_after_first = pass2
   \<and> stored_offset cache_after_first (sf_Path fileA) = Some 208
   \<and> fs_rewritten (sf_Path fileA) = Some (writeSessionTokens [7])
   \<and> length (writeSessionTokens [7]) = 103
   \<and> list_all (\<lambda>l. int (length l) < maxTokenSize) (raw_lines (writeSessionTokens [7]))
   \<and> advance (raw_lines (writeSessionTokens [7])) = 103
   \<and> stored_offset (fst pass2) (sf_Path fileA) = Some 103
   \<and> stored_offset cache_after_first (sf_Path fileB) = Some 103
   \<and> stored_offset (fst pass2) (sf_Path fileB) = Some 103"
proof -
  have d: "distinct (map sf_Path [fileA, fileB])" by (simp add: test_sizes)
  have s: "Sync test_lib fs_rewritten [fileA, fileB] cache_after_first = (fst pass2, snd pass2)"
    by (simp add: pass2_def pass1_value)
  have adv: "advance (raw_lines (writeSessionTokens [7])) = 103" by code_simp
  have fit: "list_all (\<lambda>l. int (length l) < maxTokenSize) (raw_lines (writeSessionTokens [7]))"
    by code_simp
  from offset_monotone [OF d s test_offsets(1)] offset_monotone [OF d s test_offsets(2)]
  show ?thesis
    using d s adv fit by (simp add: test_sizes test_offsets pass2_value)
qed

section \<open>A last line without a newline\<close>

lemma split_acc_chars:
  "p \<in> set (split_acc acc data) \<Longrightarrow> set p \<subseteq> set acc \<union> set data"
proof (induction data arbitrary: acc)
  case Nil
  then show ?case by (auto split: if_splits)
next
  case (Cons c cs)
  show ?case
  proof (cases "c = CHR 0x0A")
    case True
    then have "p = rev acc \<or> p \<in> set (split_acc [] cs)" using Cons.prems by simp
    then show ?thesis using Cons.IH [of "[]"] by auto
  next
    case False
    then have "p \<in> set (split_acc (c # acc) cs)" using Cons.prems by simp
    then show ?thesis using Cons.IH [of "c # acc"] by auto
  qed
qed

lemma dropCR_id: "CHR 0x0D \<notin> set p \<Longrightarrow> dropCR p = p"
  by (auto simp: dropCR_def dest: last_in_set)

lemma advance_split_acc:
  "CHR 0x0D \<notin> set acc \<union> set data \<Longrightarrow>
     advance (split_acc acc data)
       = int (length acc) + int (length data)
         + (if data = [] then (if acc = [] then 0 else 1)
            else if last data = CHR 0x0A then 0 else 1)"
proof (induction data arbitrary: acc)
  case Nil
  then show ?case by (simp add: advance_def dropCR_id)
next
  case (Cons c cs)
  show ?case
  proof (cases "c = CHR 0x0A")
    case True
    have "advance (split_acc [] cs)
        = int (length cs) + (if cs = [] then 0 else if last cs = CHR 0x0A then 0 else 1)"
      using Cons.prems Cons.IH [of "[]"] by simp
    moreover have "dropCR (rev acc) = rev acc" using Cons.prems by (intro dropCR_id) auto
    ultimately show ?thesis using True by (simp add: advance_def)
  next
    case False
    have "advance (split_acc (c # acc) cs)
        = int (length (c # acc)) + int (length cs)
          + (if cs = [] then (if c # acc = [] then 0 else 1)
             else if last cs = CHR 0x0A then 0 else 1)"
      using Cons.prems by (intro Cons.IH) auto
    then show ?thesis using False by simp
  qed
qed

lemma advance_unterminated:
  assumes "CHR 0x0D \<notin> set data" "data \<noteq> []" "last data \<noteq> CHR 0x0A"
  shows "advance (raw_lines data) = int (length data) + 1"
  using advance_split_acc [of "[]" data] assms by (simp add: raw_lines_def)

text \<open>
  Claim C9, as the code has it. Take a file that contains no carriage return, whose
  lines all fit the scanner's buffer, and whose last line has no newline; let the stored
  offset, if there is one, not be negative. If a pass syncs the file, the offset it
  stores is the size of the file plus one. On the next pass over the unchanged file the
  size is smaller than the stored offset: the file's cached records are deleted, the
  whole file is scanned again from offset zero, the file counts as synced and the offset
  stored is again the size plus one.
\<close>

theorem unterminated_last_line:
  assumes "fs (sf_Path sf) = Some content" "content \<noteq> []" "last content \<noteq> CHR 0x0A"
    "CHR 0x0D \<notin> set content"
    "\<forall>p \<in> set (raw_lines content). int (length p) < maxTokenSize"
    "\<forall>off. stored_offset db (sf_Path sf) = Some off \<longrightarrow> 0 \<le> off"
    "syncOneFile L fs db sf = Inr (True, n, db')"
  shows "stored_offset db' (sf_Path sf) = Some (int (length content) + 1)
    \<and> (\<exists>n' db2.
          scan_loop L sf (raw_lines content) 0 0
              (set_offset (delete_file_records db' (sf_Path sf)) (sf_Path sf) 0)
            = Inr (int (length content) + 1, n', db2)
          \<and> syncOneFile L fs db' sf
              = Inr (True, n', set_offset db2 (sf_Path sf) (int (length content) + 1))
          \<and> stored_offset (set_offset db2 (sf_Path sf) (int (length content) + 1)) (sf_Path sf)
              = Some (int (length content) + 1))"
proof -
  let ?p = "sf_Path sf"
  let ?size = "int (length content)"
  have whole: "advance (raw_lines content) = ?size + 1"
    using assms(2,3,4) by (intro advance_unterminated) auto
  have first: "stored_offset db' ?p = Some (?size + 1)"
  proof (cases "stored_offset db ?p")
    case None
    then have "file_state db' = file_state (add_file_state db sf (advance (raw_lines content)))"
      using syncOneFile_file_state [OF assms(7)] assms(1,2) by auto
    then have "stored_offset db' ?p = stored_offset (add_file_state db sf (?size + 1)) ?p"
      using whole by (simp add: stored_offset_def)
    then show ?thesis using None by (simp add: stored_offset_add_file_state)
  next
    case (Some off)
    then have nn: "0 \<le> off" using assms(6) by simp
    have "file_state db' = file_state (set_offset db ?p (?size + 1))"
    proof (cases "?size < off")
      case True
      then show ?thesis using syncOneFile_file_state [OF assms(7)] assms(1,2) Some whole by auto
    next
      case False
      then have gt: "off < ?size" and
        f: "file_state db' = file_state (set_offset db ?p
              (off + advance (raw_lines (drop (nat off) content))))"
        using syncOneFile_file_state [OF assms(7)] assms(1) Some by (auto split: if_splits)
      have ne: "drop (nat off) content \<noteq> []" using gt nn by simp
      have "advance (raw_lines (drop (nat off) content)) = int (length (drop (nat off) content)) + 1"
        using ne assms(3,4) by (intro advance_unterminated) (auto dest: in_set_dropD)
      then have "off + advance (raw_lines (drop (nat off) content)) = ?size + 1"
        using gt nn by simp
      then show ?thesis using f by simp
    qed
    then have "stored_offset db' ?p = stored_offset (set_offset db ?p (?size + 1)) ?p"
      by (simp add: stored_offset_def)
    then show ?thesis using Some by (simp add: stored_offset_set_offset)
  qed
  let ?db1 = "set_offset (delete_file_records db' ?p) ?p 0"
  have norows: "\<forall>r \<in> set (usage_records ?db1). source_file r = ?p \<longrightarrow> source_offset r < 0"
    by (simp add: set_offset_def delete_file_records_def)
  obtain no n' db2 where sc: "scan_loop L sf (raw_lines content) 0 0 ?db1 = Inr (no, n', db2)"
    using scan_loop_succeeds [OF assms(5) norows] by blast
  from scan_loop_result [OF sc] have fs2: "file_state db2 = file_state ?db1"
    and no: "no = ?size + 1" using whole by simp_all
  have second: "syncOneFile L fs db' sf = Inr (True, n', set_offset db2 ?p (?size + 1))"
    using assms(1,2) first sc no by (simp add: syncOneFile_def Let_def)
  have "stored_offset db2 ?p = stored_offset ?db1 ?p"
    using fs2 by (simp add: stored_offset_def)
  then have "stored_offset db2 ?p = Some 0"
    using first by (simp add: stored_offset_set_offset)
  then have third: "stored_offset (set_offset db2 ?p (?size + 1)) ?p = Some (?size + 1)"
    by (simp add: stored_offset_set_offset)
  show ?thesis using first sc no second third by blast
qed

lemma unterminated_pass:
  "syncOneFile test_lib fs_unterminated empty_db fileA = Inr (True, 1, cache_unterminated 1)"
  by code_simp

theorem unterminated_last_line_witness:
  "fs_unterminated (sf_Path fileA) = Some (test_line 0 7)
   \<and> test_line 0 7 \<noteq> [] \<and> last (test_line 0 7) \<noteq> CHR 0x0A
   \<and> CHR 0x0D \<notin> set (test_line 0 7)
   \<and> list_all (\<lambda>p. int (length p) < maxTokenSize) (raw_lines (test_line 0 7))
   \<and> syncOneFile test_lib fs_unterminated empty_db fileA = Inr (True, 1, cache_unterminated 1)
   \<and> length (test_line 0 7) = 102
   \<and> stored_offset (cache_unterminated 1) (sf_Path fileA) = Some 103
   \<and> syncOneFile test_lib fs_unterminated (cache_unterminated 1) fileA
       = Inr (True, 1, cache_unterminated 2)"
proof -
  have a: "fs_unterminated (sf_Path fileA) = Some (test_line 0 7)" by code_simp
  have b: "test_line 0 7 \<noteq> []" "last (test_line 0 7) \<noteq> CHR 0x0A" "CHR 0x0D \<notin> set (test_line 0 7)"
    "length (test_line 0 7) = 102"
    by code_simp+
  have c: "\<forall>p \<in> set (raw_lines (test_line 0 7)). int (length p) < maxTokenSize" by code_simp
  have d: "\<forall>off. stored_offset (empty_db :: usage_row database) (sf_Path fileA) = Some off \<longrightarrow> 0 \<le> off"
    by (simp add: stored_offset_def empty_db_def)
  have e: "syncOneFile test_lib fs_unterminated (cache_unterminated 1) fileA
       = Inr (True, 1, cache_unterminated 2)"
    by code_simp
  from unterminated_last_line [OF a b(1) b(2) b(3) c d unterminated_pass]
  show ?thesis using a b c e unterminated_pass by (simp add: list_all_iff)
qed

text \<open>
  Claim C9 as stated fails on a file with Windows line ends: the scanner drops the
  carriage return of the first line without counting it, so for the four bytes
  \<open>a\<close>, CR, LF, \<open>b\<close>, whose last line has no newline, the stored offset is 4, the size of
  the file and not the size plus one, and the next pass skips the file.
\<close>

theorem unterminated_last_line_counterexample:
  "fs_crlf (sf_Path fileA) = Some [CHR ''a'', CHR 0x0D, CHR 0x0A, CHR ''b'']
   \<and> last [CHR ''a'', CHR 0x0D, CHR 0x0A, CHR ''b''] \<noteq> CHR 0x0A
   \<and> syncOneFile test_lib fs_crlf empty_db fileA = Inr (True, 0, add_file_state empty_db fileA 4)
   \<and> stored_offset (add_file_state empty_db fileA 4 :: usage_row database) (sf_Path fileA) = Some 4
   \<and> syncOneFile test_lib fs_crlf (add_file_state empty_db fileA 4) fileA
       = Inr (False, 0, add_file_state empty_db fileA 4)"
  by code_simp

section \<open>Properties of the aggregation\<close>

lemma add_to_group_keys:
  "set (map fst (add_to_group k r gs)) = insert k (set (map fst gs))"
proof (induction gs)
  case Nil
  then show ?case by simp
next
  case (Cons g gs)
  obtain k' t c n where g: "g = (k', t, c, n)" by (cases g) auto
  show ?case using Cons.IH g by (cases "k = k'") auto
qed

lemma add_to_group_distinct:
  "distinct (map fst gs) \<Longrightarrow> distinct (map fst (add_to_group k r gs))"
proof (induction gs)
  case Nil
  then show ?case by simp
next
  case (Cons g gs)
  obtain k' t c n where g: "g = (k', t, c, n)" by (cases g) auto
  show ?case
  proof (cases "k = k'")
    case True
    then show ?thesis using Cons.prems g by simp
  next
    case False
    have "k' \<notin> set (map fst (add_to_group k r gs))"
      using Cons.prems g False by (simp add: add_to_group_keys del: set_map)
    then show ?thesis using Cons False g by simp
  qed
qed

lemma group_tokens_Nil: "group_tokens [] x = 0"
  by (simp add: group_tokens_def)

lemma group_tokens_Cons:
  "group_tokens ((k, t, c, n) # gs) x = (if x = k then t else group_tokens gs x)"
  by (simp add: group_tokens_def)

lemma add_to_group_tokens:
  "group_tokens (add_to_group k r gs) x = group_tokens gs x + (if x = k then tokens r else 0)"
proof (induction gs)
  case Nil
  then show ?case by (simp add: group_tokens_Cons group_tokens_Nil)
next
  case (Cons g gs)
  obtain k' t c n where g: "g = (k', t, c, n)" by (cases g) auto
  show ?case using Cons.IH g by (cases "k = k'") (simp_all add: group_tokens_Cons)
qed

lemma group_rows_keys:
  "set (map fst (group_rows key rows gs)) = set (map fst gs) \<union> key ` set rows"
proof (induction rows arbitrary: gs)
  case Nil
  then show ?case by simp
next
  case (Cons r rows)
  have "set (map fst (group_rows key rows (add_to_group (key r) r gs)))
      = set (map fst (add_to_group (key r) r gs)) \<union> key ` set rows"
    by (rule Cons.IH)
  then show ?case by (simp add: add_to_group_keys del: set_map)
qed

lemma group_rows_distinct:
  "distinct (map fst gs) \<Longrightarrow> distinct (map fst (group_rows key rows gs))"
proof (induction rows arbitrary: gs)
  case Nil
  then show ?case by simp
next
  case (Cons r rows)
  then show ?case using add_to_group_distinct [of gs "key r" r] by simp
qed

lemma group_rows_tokens:
  "group_tokens (group_rows key rows gs) k
     = group_tokens gs k + sum_list (map tokens (filter (\<lambda>r. key r = k) rows))"
proof (induction rows arbitrary: gs)
  case Nil
  then show ?case by simp
next
  case (Cons r rows)
  have "group_tokens (group_rows key rows (add_to_group (key r) r gs)) k
      = group_tokens (add_to_group (key r) r gs) k
        + sum_list (map tokens (filter (\<lambda>r. key r = k) rows))"
    by (rule Cons.IH)
  then show ?case by (simp add: add_to_group_tokens)
qed

lemma group_tokens_member:
  "distinct (map fst gs) \<Longrightarrow> (k, t, c, n) \<in> set gs \<Longrightarrow> group_tokens gs k = t"
  by (simp add: group_tokens_def)

lemma insert_by_set: "set (insert_by le x xs) = insert x (set xs)"
  by (induction xs) auto

lemma order_by_Cons: "order_by le (x # xs) = insert_by le x (order_by le xs)"
  by (simp add: order_by_def)

lemma order_by_set: "set (order_by le xs) = set xs"
proof (induction xs)
  case Nil
  then show ?case by (simp add: order_by_def)
next
  case (Cons x xs)
  then show ?case by (simp add: order_by_Cons insert_by_set)
qed

lemma insert_by_distinct:
  "distinct (map f (insert_by le x xs)) \<longleftrightarrow> f x \<notin> f ` set xs \<and> distinct (map f xs)"
proof (induction xs)
  case Nil
  then show ?case by simp
next
  case (Cons y ys)
  then show ?case by (cases "le x y") (auto simp: insert_by_set)
qed

lemma order_by_distinct: "distinct (map f xs) \<Longrightarrow> distinct (map f (order_by le xs))"
proof (induction xs)
  case Nil
  then show ?case by (simp add: order_by_def)
next
  case (Cons x xs)
  then show ?case by (simp add: order_by_Cons insert_by_distinct order_by_set)
qed

lemma heatmap_query_keys:
  "map (\<lambda>c. (hc_DOW c, hc_Hour c)) (heatmap_query L wh rows)
     = map fst (order_by cell_order
         (group_rows (\<lambda>r. (the (dow r), the (hour r))) (heatmap_rows wh rows) []))"
  by (simp add: heatmap_query_def split_def comp_def)

lemma heatmap_query_cells:
  fixes rows :: "('a usage_row_v1_scheme) list"
  shows "distinct (map (\<lambda>c. (hc_DOW c, hc_Hour c)) (heatmap_query L wh rows))
    \<and> set (map (\<lambda>c. (hc_DOW c, hc_Hour c)) (heatmap_query L wh rows))
        = {(d, h). \<exists>r \<in> set rows. dow r = Some d \<and> hour r = Some h \<and> wh r}
    \<and> (\<forall>c \<in> set (heatmap_query L wh rows).
          hc_Tokens c = sum_list (map tokens (filter
             (\<lambda>r. dow r = Some (hc_DOW c) \<and> hour r = Some (hc_Hour c) \<and> wh r) rows)))"
proof -
  let ?key = "\<lambda>r :: 'a usage_row_v1_scheme. (the (dow r), the (hour r))"
  let ?hr = "heatmap_rows wh rows"
  let ?gs = "group_rows ?key ?hr []"
  have dist: "distinct (map fst ?gs)" by (rule group_rows_distinct) simp
  have d: "distinct (map (\<lambda>c. (hc_DOW c, hc_Hour c)) (heatmap_query L wh rows))"
    unfolding heatmap_query_keys using dist by (rule order_by_distinct)
  have "set (map fst (order_by cell_order ?gs)) = set (map fst ?gs)"
    by (simp add: order_by_set)
  also have "\<dots> = ?key ` set ?hr" by (simp add: group_rows_keys del: set_map)
  also have "\<dots> = {(d, h). \<exists>r \<in> set rows. dow r = Some d \<and> hour r = Some h \<and> wh r}"
    by (auto simp: heatmap_rows_def image_iff) force
  finally have s: "set (map (\<lambda>c. (hc_DOW c, hc_Hour c)) (heatmap_query L wh rows))
        = {(d, h). \<exists>r \<in> set rows. dow r = Some d \<and> hour r = Some h \<and> wh r}"
    unfolding heatmap_query_keys .
  have t: "hc_Tokens c = sum_list (map tokens (filter
             (\<lambda>r. dow r = Some (hc_DOW c) \<and> hour r = Some (hc_Hour c) \<and> wh r) rows))"
    if "c \<in> set (heatmap_query L wh rows)" for c
  proof -
    from that obtain g where g: "g \<in> set (order_by cell_order ?gs)"
      and c: "c = (\<lambda>((d, h), t, c, n). \<lparr> hc_DOW = d, hc_Hour = h, hc_Tokens = t, hc_Cost = roundFloat L c \<rparr>) g"
      by (auto simp: heatmap_query_def)
    obtain dd hh tt cc nn where gg: "g = ((dd, hh), tt, cc, nn)" by (cases g) auto
    have "((dd, hh), tt, cc, nn) \<in> set ?gs" using g gg by (simp add: order_by_set)
    then have "group_tokens ?gs (dd, hh) = tt" using dist by (intro group_tokens_member)
    then have "tt = sum_list (map tokens (filter (\<lambda>r. ?key r = (dd, hh)) ?hr))"
      by (simp add: group_rows_tokens group_tokens_Nil)
    also have "filter (\<lambda>r. ?key r = (dd, hh)) ?hr
        = filter (\<lambda>r. dow r = Some dd \<and> hour r = Some hh \<and> wh r) rows"
      unfolding heatmap_rows_def filter_filter by (rule filter_cong) auto
    finally show ?thesis using c gg by simp
  qed
  show ?thesis using d s t by blast
qed

section \<open>The date filter and the heat map\<close>

text \<open>The order of \<open>text_le\<close> is the lexicographic order of the byte values.\<close>

lemma text_le_lexord:
  "text_le a b \<longleftrightarrow> a = b \<or> (a, b) \<in> lexord {(x, y). (of_char x :: int) < of_char y}"
proof (induction a b rule: text_le.induct)
  case (1 ys)
  show ?case by (cases ys) auto
next
  case (2 x xs)
  show ?case by simp
next
  case (3 x xs y ys)
  then show ?case by auto
qed

lemma dateWhere_explicit:
  "dateWhere startDate endDate r
     \<longleftrightarrow> (startDate = [] \<and> endDate = [])
         \<or> (date_key r \<noteq> ''unknown''
             \<and> (startDate = [] \<or> text_le startDate (date_key r))
             \<and> (endDate = [] \<or> text_le (date_key r) endDate))"
  by (auto simp: dateWhere_def rangeParts_def)

text \<open>
  Claim C8. In the response of \<open>CollectStats\<close> the heat map has one cell, and only one,
  for each pair of day of week and hour that some record of the cache has, both present,
  and that matches the date filter: any record when no bound is given, and with a bound
  the records that have a date, not before the start bound and not after the end bound
  when these are given. The token sum of the cell is the sum of the tokens of exactly
  those records. A pair that no such record has is the key of no cell.
\<close>

theorem heatmap_sparse_and_exact:
  assumes "CollectStats L fs files dir db startDate endDate = (db', resp)"
  shows "let in_range = (\<lambda>r. (startDate = [] \<and> endDate = [])
                \<or> (date_key r \<noteq> ''unknown''
                    \<and> (startDate = [] \<or> text_le startDate (date_key r))
                    \<and> (endDate = [] \<or> text_le (date_key r) endDate)))
    in distinct (map (\<lambda>c. (hc_DOW c, hc_Hour c)) (Heatmap resp))
     \<and> set (map (\<lambda>c. (hc_DOW c, hc_Hour c)) (Heatmap resp))
         = {(d, h). \<exists>r \<in> set (usage_records db').
               dow r = Some d \<and> hour r = Some h \<and> in_range r}
     \<and> (\<forall>c \<in> set (Heatmap resp).
           hc_Tokens c = sum_list (map tokens (filter
              (\<lambda>r. dow r = Some (hc_DOW c) \<and> hour r = Some (hc_Hour c) \<and> in_range r)
              (usage_records db'))))"
proof -
  have w: "dateWhere startDate endDate
      = (\<lambda>r :: usage_row. (startDate = [] \<and> endDate = [])
                \<or> (date_key r \<noteq> ''unknown''
                    \<and> (startDate = [] \<or> text_le startDate (date_key r))
                    \<and> (endDate = [] \<or> text_le (date_key r) endDate)))"
    by (rule ext) (rule dateWhere_explicit)
  have "Heatmap resp = heatmap_query L (dateWhere startDate endDate) (usage_records db')"
    using assms by (auto simp: CollectStats_def aggregate_def Let_def split: prod.splits)
  then show ?thesis
    unfolding Let_def
    using heatmap_query_cells [of L "dateWhere startDate endDate" "usage_records db'"]
    unfolding w by simp
qed

lemma mixed_cache_stats:
  "CollectStats test_lib Map.empty [] ''agents'' mixed_cache startDate endDate
     = (mixed_cache,
        snd (CollectStats test_lib Map.empty [] ''agents'' mixed_cache startDate endDate))"
  by (simp add: CollectStats_def Sync_def)

lemma mixed_cache_heatmaps:
  "Heatmap (snd (CollectStats test_lib Map.empty [] ''agents'' mixed_cache
       ''2026-02-17'' ''2026-02-17''))
     = [\<lparr> hc_DOW = 1, hc_Hour = 0, hc_Tokens = 30, hc_Cost = 0 \<rparr>]"
  "Heatmap (snd (CollectStats test_lib Map.empty [] ''agents'' mixed_cache ''2026-02-17'' []))
     = [\<lparr> hc_DOW = 1, hc_Hour = 0, hc_Tokens = 30, hc_Cost = 0 \<rparr>,
        \<lparr> hc_DOW = 2, hc_Hour = 5, hc_Tokens = 4, hc_Cost = 0 \<rparr>]"
  "Heatmap (snd (CollectStats test_lib Map.empty [] ''agents'' mixed_cache [] ''2026-02-16''))
     = [\<lparr> hc_DOW = 0, hc_Hour = 23, hc_Tokens = 3, hc_Cost = 0 \<rparr>]"
  "Heatmap (snd (CollectStats test_lib Map.empty [] ''agents'' mixed_cache ''2027-01-01'' []))
     = []"
  "Heatmap (snd (CollectStats test_lib Map.empty [] ''agents'' mixed_cache [] []))
     = [\<lparr> hc_DOW = 0, hc_Hour = 23, hc_Tokens = 3, hc_Cost = 0 \<rparr>,
        \<lparr> hc_DOW = 1, hc_Hour = 0, hc_Tokens = 30, hc_Cost = 0 \<rparr>,
        \<lparr> hc_DOW = 2, hc_Hour = 5, hc_Tokens = 4, hc_Cost = 0 \<rparr>]"
  by code_simp+

theorem heatmap_sparse_and_exact_witness:
  "CollectStats test_lib Map.empty [] ''agents'' mixed_cache ''2026-02-17'' ''2026-02-17''
     = (mixed_cache,
        snd (CollectStats test_lib Map.empty [] ''agents'' mixed_cache ''2026-02-17'' ''2026-02-17''))
   \<and> Heatmap (snd (CollectStats test_lib Map.empty [] ''agents'' mixed_cache
         ''2026-02-17'' ''2026-02-17''))
       = [\<lparr> hc_DOW = 1, hc_Hour = 0, hc_Tokens = 30, hc_Cost = 0 \<rparr>]
   \<and> {(d, h). \<exists>r \<in> set (usage_records mixed_cache).
          dow r = Some d \<and> hour r = Some h \<and> date_key r \<noteq> ''unknown''
          \<and> text_le ''2026-02-17'' (date_key r) \<and> text_le (date_key r) ''2026-02-17''}
       = {(1, 0)}
   \<and> sum_list (map tokens (filter
         (\<lambda>r. dow r = Some 1 \<and> hour r = Some 0 \<and> date_key r \<noteq> ''unknown''
            \<and> text_le ''2026-02-17'' (date_key r) \<and> text_le (date_key r) ''2026-02-17'')
         (usage_records mixed_cache))) = 30
   \<and> Heatmap (snd (CollectStats test_lib Map.empty [] ''agents'' mixed_cache ''2026-02-17'' []))
       = [\<lparr> hc_DOW = 1, hc_Hour = 0, hc_Tokens = 30, hc_Cost = 0 \<rparr>,
          \<lparr> hc_DOW = 2, hc_Hour = 5, hc_Tokens = 4, hc_Cost = 0 \<rparr>]
   \<and> Heatmap (snd (CollectStats test_lib Map.empty [] ''agents'' mixed_cache [] ''2026-02-16''))
       = [\<lparr> hc_DOW = 0, hc_Hour = 23, hc_Tokens = 3, hc_Cost = 0 \<rparr>]
   \<and> Heatmap (snd (CollectStats test_lib Map.empty [] ''agents'' mixed_cache ''2027-01-01'' []))
       = []
   \<and> Heatmap (snd (CollectStats test_lib Map.empty [] ''agents'' mixed_cache [] []))
       = [\<lparr> hc_DOW = 0, hc_Hour = 23, hc_Tokens = 3, hc_Cost = 0 \<rparr>,
          \<lparr> hc_DOW = 1, hc_Hour = 0, hc_Tokens = 30, hc_Cost = 0 \<rparr>,
          \<lparr> hc_DOW = 2, hc_Hour = 5, hc_Tokens = 4, hc_Cost = 0 \<rparr>]"
proof -
  let ?c = "CollectStats test_lib Map.empty [] ''agents'' mixed_cache ''2026-02-17'' ''2026-02-17''"
  have e: "?c = (mixed_cache, snd ?c)" by (rule mixed_cache_stats)
  from heatmap_sparse_and_exact [OF e] show ?thesis
    using e by (simp add: mixed_cache_heatmaps Let_def)
qed






section \<open>The calendar\<close>

lemma year_len_pos: "365 \<le> year_len y" "year_len y \<le> 366"
  by (simp_all add: year_len_def)













section \<open>Digits\<close>








section \<open>Parsing what was formatted\<close>












section \<open>One instant in its four forms\<close>











end
